theory Spec2Isabelle
  imports Main "HOL-Library.AList"
begin

section \<open>Configuration\<close>

text \<open>
  The constant table \<open>CONFIG\<close> of \<open>assets/custom.js\<close>. Every selector of the table is
  a single class selector, so a selector is represented by its class name.
\<close>

definition themes :: "string list" where
  "themes = [''Light'', ''Dark'', ''Cyberpunk'']"

definition defaultTheme :: string where
  "defaultTheme = ''Light''"

definition storageKeys_theme :: string where
  "storageKeys_theme = ''aiResearchAgent_theme''"

definition storageKeys_sidebarCollapsed :: string where
  "storageKeys_sidebarCollapsed = ''aiResearchAgent_sidebarCollapsed''"

definition selectors_app :: string where
  "selectors_app = ''stApp''"

definition selectors_sidebar :: string where
  "selectors_sidebar = ''stSidebar''"

definition selectors_summaryBox :: string where
  "selectors_summaryBox = ''summary-box''"

section \<open>The document\<close>

text \<open>
  An element carries its class list, its attributes, its inline style and its child
  elements. Text content is not represented. A node handle (what \<open>querySelector\<close>
  returns) is the path of child indices from the document body to the element; the
  script never removes or reorders nodes, so handles stay valid while it runs.
\<close>

datatype element =
  Element (classList: "string list") (attributes: "(string \<times> string) list")
    (style: "(string \<times> string) list") (childNodes: "element list")

type_synonym node = "nat list"

fun node_at :: "node \<Rightarrow> element \<Rightarrow> element option" where
  "node_at [] e = Some e"
| "node_at (i # p) e =
     (if i < length (childNodes e) then node_at p (childNodes e ! i) else None)"

fun update_at :: "node \<Rightarrow> (element \<Rightarrow> element) \<Rightarrow> element \<Rightarrow> element" where
  "update_at [] f e = f e"
| "update_at (i # p) f (Element c a st ks) =
     (if i < length ks then Element c a st (ks[i := update_at p f (ks ! i)])
      else Element c a st ks)"

text \<open>
  \<open>querySelectorAll\<close> for a class selector: the matching elements in document order
  (an element before its descendants, children from first to last).
  \<open>select_all\<close> includes the element it starts from, as a query on the document does;
  \<open>select_kids\<close> ranges over the descendants only, as a query on an element does.
\<close>

fun select_all :: "string \<Rightarrow> element \<Rightarrow> node list"
  and select_kids :: "string \<Rightarrow> nat \<Rightarrow> element list \<Rightarrow> node list" where
  "select_all c (Element cs a st ks) =
     (if c \<in> set cs then [[]] else []) @ select_kids c 0 ks"
| "select_kids c i [] = []"
| "select_kids c i (k # ks) = map ((#) i) (select_all c k) @ select_kids c (Suc i) ks"

definition element_querySelector :: "string \<Rightarrow> element \<Rightarrow> node option" where
  "element_querySelector c e =
     (case select_kids c 0 (childNodes e) of [] \<Rightarrow> None | p # _ \<Rightarrow> Some p)"

fun el_setAttribute :: "string \<Rightarrow> string \<Rightarrow> element \<Rightarrow> element" where
  "el_setAttribute k v (Element c a st ks) = Element c (AList.update k v a) st ks"

fun el_classList_add :: "string \<Rightarrow> element \<Rightarrow> element" where
  "el_classList_add x (Element c a st ks) =
     Element (if x \<in> set c then c else c @ [x]) a st ks"

fun el_classList_remove :: "string \<Rightarrow> element \<Rightarrow> element" where
  "el_classList_remove x (Element c a st ks) = Element (removeAll x c) a st ks"

fun el_setStyle :: "string \<Rightarrow> string \<Rightarrow> element \<Rightarrow> element" where
  "el_setStyle k v (Element c a st ks) = Element c a (AList.update k v st) ks"

fun el_appendChild :: "element \<Rightarrow> element \<Rightarrow> element" where
  "el_appendChild e (Element c a st ks) = Element c a st (ks @ [e])"

section \<open>The page state\<close>

datatype event = ThemeChanged string | SidebarToggled bool

datatype level = LOG | WARN | ERROR

datatype listener =
  OnClick | OnKeydown | OnThemeChanged | OnSidebarToggled | OnResize nat
  | OnBeforeUnload | OnDOMContentLoaded

text \<open>The two functions the script passes to \<open>debounce\<close>.\<close>

datatype func = EnhanceNewElements | HandleResize

text \<open>
  A debounced function is the closure \<open>debounce\<close> returns: the wrapped function, the
  wait, and the closure variable \<open>timeout\<close> (undefined until the first call).
\<close>

record debounced =
  func :: func
  wait :: nat
  timeout :: "nat option"

text \<open>What a pending timer runs when it fires.\<close>

datatype callback =
  Later nat
  | ProgressWidth node
  | ProgressOpacity node
  | StreamlitReadyTick
  | StreamlitReadyTimeout

datatype timer =
  Timer (timer_id: nat) (due: nat) (callback: callback) (period: "nat option")

text \<open>
  A mutation observer: the debounced closure its callback calls, and the node it
  observes (\<open>None\<close> before \<open>observe\<close> and after \<open>disconnect\<close>).
\<close>

record observer =
  debouncedEnhance :: nat
  target :: "node option"

text \<open>
  Everything the script reads or writes: the document body (\<open>None\<close> while the document
  has no body), the storage backend, the events dispatched on the window, the console,
  the registered listeners, the module variable \<open>mutationObserver\<close>, the closures made
  by \<open>debounce\<close>, the timer queue with its clock (in milliseconds), the interval handle
  \<open>streamlitReady\<close>, and what the environment answers for the reduced-motion media query
  and the viewport width. \<open>invoked\<close> records, with the clock, every call a debounced
  closure makes to its wrapped function, and \<open>activated\<close> the clock of every activation
  the bootstrap poll starts.
\<close>

record page =
  body :: "element option"
  storage :: "string \<rightharpoonup> string"
  dispatched :: "event list"
  console :: "(level \<times> string) list"
  listeners :: "listener list"
  mutationObserver :: "observer option"
  closures :: "debounced list"
  clock :: nat
  pending :: "timer list"
  next_id :: nat
  streamlitReady :: "nat option"
  reducedMotion :: bool
  innerWidth :: nat
  invoked :: "(nat \<times> nat \<times> func) list"
  polled :: "nat list"
  activated :: "nat list"

definition document_querySelectorAll :: "string \<Rightarrow> page \<Rightarrow> node list" where
  "document_querySelectorAll c s =
     (case body s of None \<Rightarrow> [] | Some b \<Rightarrow> select_all c b)"

definition document_querySelector :: "string \<Rightarrow> page \<Rightarrow> node option" where
  "document_querySelector c s =
     (case document_querySelectorAll c s of [] \<Rightarrow> None | p # _ \<Rightarrow> Some p)"

definition element_at :: "node \<Rightarrow> page \<Rightarrow> element option" where
  "element_at n s = (case body s of None \<Rightarrow> None | Some b \<Rightarrow> node_at n b)"

definition on_element :: "node \<Rightarrow> (element \<Rightarrow> element) \<Rightarrow> page \<Rightarrow> page" where
  "on_element n f s = s\<lparr>body := map_option (update_at n f) (body s)\<rparr>"

definition setAttribute :: "node \<Rightarrow> string \<Rightarrow> string \<Rightarrow> page \<Rightarrow> page" where
  "setAttribute n k v = on_element n (el_setAttribute k v)"

definition getAttribute :: "node \<Rightarrow> string \<Rightarrow> page \<Rightarrow> string option" where
  "getAttribute n k s =
     (case element_at n s of None \<Rightarrow> None | Some e \<Rightarrow> map_of (attributes e) k)"


definition classList_contains :: "node \<Rightarrow> string \<Rightarrow> page \<Rightarrow> bool" where
  "classList_contains n x s =
     (case element_at n s of None \<Rightarrow> False | Some e \<Rightarrow> x \<in> set (classList e))"

definition classList_add :: "node \<Rightarrow> string \<Rightarrow> page \<Rightarrow> page" where
  "classList_add n x = on_element n (el_classList_add x)"

definition classList_remove :: "node \<Rightarrow> string \<Rightarrow> page \<Rightarrow> page" where
  "classList_remove n x = on_element n (el_classList_remove x)"

definition storage_getItem :: "string \<Rightarrow> page \<Rightarrow> string option" where
  "storage_getItem k s = storage s k"

definition storage_setItem :: "string \<Rightarrow> string \<Rightarrow> page \<Rightarrow> page" where
  "storage_setItem k v s = s\<lparr>storage := (storage s)(k \<mapsto> v)\<rparr>"

definition console_write :: "level \<Rightarrow> string \<Rightarrow> page \<Rightarrow> page" where
  "console_write l m s = s\<lparr>console := console s @ [(l, m)]\<rparr>"

text \<open>
  \<open>window.dispatchEvent\<close> runs the registered listeners synchronously. The listeners
  the script itself registers for its two custom events log to the console.
\<close>

fun notify :: "event \<Rightarrow> listener \<Rightarrow> page \<Rightarrow> page" where
  "notify (ThemeChanged t) OnThemeChanged s =
     console_write LOG (''Theme changed to: '' @ t) s"
| "notify (SidebarToggled b) OnSidebarToggled s =
     console_write LOG (''Sidebar collapsed: '' @ (if b then ''true'' else ''false'')) s"
| "notify ev l s = s"

definition dispatchEvent :: "event \<Rightarrow> page \<Rightarrow> page" where
  "dispatchEvent ev s =
     fold (notify ev) (listeners s) (s\<lparr>dispatched := dispatched s @ [ev]\<rparr>)"

section \<open>Theme management\<close>

definition setTheme :: "string \<Rightarrow> page \<Rightarrow> page" where
  "setTheme theme0 s =
     (let (theme, s1) =
        (if theme0 \<notin> set themes
         then (defaultTheme,
               console_write WARN (''Invalid theme: '' @ theme0 @ ''. Using default.'') s)
         else (theme0, s))
      in case document_querySelector selectors_app s1 of
           None \<Rightarrow> s1
         | Some appElement \<Rightarrow>
             dispatchEvent (ThemeChanged theme)
               (storage_setItem storageKeys_theme theme
                 (setAttribute appElement ''data-theme'' theme s1)))"

text \<open>
  \<open>storage.getItem(key) || CONFIG.defaultTheme\<close>: the default stands in for every
  falsy value, that is for a missing key and for the empty string.
\<close>

definition getTheme :: "page \<Rightarrow> string" where
  "getTheme s =
     (case storage_getItem storageKeys_theme s of
        None \<Rightarrow> defaultTheme
      | Some v \<Rightarrow> if v = [] then defaultTheme else v)"

text \<open>\<open>Array.prototype.indexOf\<close>: the first index of the value, or \<open>-1\<close>.\<close>

fun indexOf_from :: "int \<Rightarrow> 'a list \<Rightarrow> 'a \<Rightarrow> int" where
  "indexOf_from i [] x = - 1"
| "indexOf_from i (y # ys) x = (if y = x then i else indexOf_from (i + 1) ys x)"

definition indexOf :: "'a list \<Rightarrow> 'a \<Rightarrow> int" where
  "indexOf xs x = indexOf_from 0 xs x"

text \<open>
  \<open>currentIndex + 1\<close> is never negative, so the remainder of JavaScript and \<open>mod\<close>
  agree, and \<open>nextIndex\<close> is a valid index of \<open>themes\<close>.
\<close>

definition toggleTheme :: "page \<Rightarrow> page" where
  "toggleTheme s =
     (let currentTheme = getTheme s;
          currentIndex = indexOf themes currentTheme;
          nextIndex = (currentIndex + 1) mod int (length themes)
      in setTheme (themes ! nat nextIndex) s)"

definition resetTheme :: "page \<Rightarrow> page" where
  "resetTheme s = setTheme defaultTheme s"

section \<open>Sidebar management\<close>

definition toggleSidebar :: "page \<Rightarrow> page" where
  "toggleSidebar s =
     (case (document_querySelector selectors_sidebar s,
            document_querySelector selectors_app s) of
        (Some sidebar, Some appElement) \<Rightarrow>
          (let isCollapsed = classList_contains sidebar ''collapsed'' s;
               s1 = (if isCollapsed
                     then storage_setItem storageKeys_sidebarCollapsed ''false''
                            (setAttribute appElement ''data-sidebar-collapsed'' ''false''
                              (classList_remove sidebar ''collapsed'' s))
                     else storage_setItem storageKeys_sidebarCollapsed ''true''
                            (setAttribute appElement ''data-sidebar-collapsed'' ''true''
                              (classList_add sidebar ''collapsed'' s)))
           in dispatchEvent (SidebarToggled (\<not> isCollapsed)) s1)
      | _ \<Rightarrow> s)"

definition applySavedSidebarState :: "page \<Rightarrow> page" where
  "applySavedSidebarState s =
     (let isCollapsed = (storage_getItem storageKeys_sidebarCollapsed s = Some ''true'')
      in case (document_querySelector selectors_sidebar s,
               document_querySelector selectors_app s) of
           (Some sidebar, Some appElement) \<Rightarrow>
             (if isCollapsed
              then setAttribute appElement ''data-sidebar-collapsed'' ''true''
                     (classList_add sidebar ''collapsed'' s)
              else s)
         | _ \<Rightarrow> s)"

definition setStyle :: "node \<Rightarrow> string \<Rightarrow> string \<Rightarrow> page \<Rightarrow> page" where
  "setStyle n k v = on_element n (el_setStyle k v)"

definition appendChild :: "node \<Rightarrow> element \<Rightarrow> page \<Rightarrow> page" where
  "appendChild n e = on_element n (el_appendChild e)"

section \<open>Timers\<close>

text \<open>
  \<open>setTimeout\<close> and \<open>setInterval\<close> draw their handles from one counter and queue a timer
  that is due after the delay; \<open>clearTimeout\<close> and \<open>clearInterval\<close> remove the timer with
  the handle, and do nothing for an undefined handle.
\<close>

definition setTimeout :: "callback \<Rightarrow> nat \<Rightarrow> page \<Rightarrow> nat \<times> page" where
  "setTimeout cb delay s =
     (next_id s,
      s\<lparr>pending := pending s @ [Timer (next_id s) (clock s + delay) cb None],
        next_id := Suc (next_id s)\<rparr>)"


definition clearTimeout :: "nat option \<Rightarrow> page \<Rightarrow> page" where
  "clearTimeout h s =
     (case h of
        None \<Rightarrow> s
      | Some i \<Rightarrow> s\<lparr>pending := filter (\<lambda>t. timer_id t \<noteq> i) (pending s)\<rparr>)"


section \<open>Debounce\<close>

text \<open>
  \<open>debounce(func, wait)\<close> makes a closure and returns it; the closure is named by its
  index in \<open>closures\<close>. \<open>executedFunction\<close> is a call of the closure: it clears the timer
  the closure variable holds and schedules \<open>later\<close>.
\<close>

definition debounce :: "func \<Rightarrow> nat \<Rightarrow> page \<Rightarrow> nat \<times> page" where
  "debounce f w s =
     (length (closures s),
      s\<lparr>closures := closures s @ [\<lparr>func = f, wait = w, timeout = None\<rparr>]\<rparr>)"

definition executedFunction :: "nat \<Rightarrow> page \<Rightarrow> page" where
  "executedFunction c s =
     (if c < length (closures s)
      then (let d = closures s ! c;
                s1 = clearTimeout (timeout d) s;
                (h, s2) = setTimeout (Later c) (wait d) s1
            in s2\<lparr>closures := (closures s2)[c := d\<lparr>timeout := Some h\<rparr>]\<rparr>)
      else s)"

section \<open>UI enhancements\<close>

definition prefersReducedMotion :: "page \<Rightarrow> bool" where
  "prefersReducedMotion s = reducedMotion s"

definition icon :: element where
  "icon = Element [''summary-icon''] []
     [(''position'', ''absolute''), (''top'', ''12px''), (''right'', ''12px''),
      (''font-size'', ''16px''), (''opacity'', ''0.7'')] []"

definition progressBar :: element where
  "progressBar = Element [''summary-progress''] []
     [(''position'', ''absolute''), (''bottom'', ''0''), (''left'', ''0''),
      (''height'', ''2px''),
      (''background'',
       ''linear-gradient(90deg, var(--accent-primary), var(--accent-secondary))''),
      (''width'', ''0%''), (''transition'', ''width 0.3s ease''),
      (''border-radius'', ''0 0 8px 8px'')] []"

text \<open>
  \<open>decorateSummaryBox\<close> returns at once when a descendant of the box has the class
  \<open>summary-icon\<close>. Otherwise it appends the icon and the progress bar as the last two
  children; the handle of the bar is the path of the box extended by the bar's index.
  With motion allowed the width change is left to a timer.
\<close>

definition decorateSummaryBox :: "node \<Rightarrow> page \<Rightarrow> page" where
  "decorateSummaryBox summaryBox s =
     (case element_at summaryBox s of
        None \<Rightarrow> s
      | Some e \<Rightarrow>
          if element_querySelector ''summary-icon'' e \<noteq> None then s
          else (let s1 = appendChild summaryBox icon
                           (setStyle summaryBox ''position'' ''relative'' s);
                    s2 = appendChild summaryBox progressBar s1;
                    bar = summaryBox @ [Suc (length (childNodes e))]
                in if \<not> prefersReducedMotion s2
                   then snd (setTimeout (ProgressWidth bar) 100 s2)
                   else setStyle bar ''opacity'' ''0.3'' (setStyle bar ''width'' ''100%'' s2)))"

definition enhanceNewElements :: "page \<Rightarrow> page" where
  "enhanceNewElements s =
     fold decorateSummaryBox (document_querySelectorAll selectors_summaryBox s) s"

section \<open>Mutation observer\<close>


datatype mutation_type = ChildList | Attributes | CharacterData


datatype fault = TypeError string




definition disconnect :: "page \<Rightarrow> page" where
  "disconnect s =
     (case mutationObserver s of
        None \<Rightarrow> s
      | Some ob \<Rightarrow> s\<lparr>mutationObserver := Some (ob\<lparr>target := None\<rparr>)\<rparr>)"

text \<open>
  \<open>observe\<close> is called on the app root or else on \<open>document.body\<close>; with neither it is
  called on \<open>null\<close> and throws. A fault carries the page as it was when it was thrown.
\<close>

definition setupMutationObserver :: "page \<Rightarrow> (fault \<times> page) + page" where
  "setupMutationObserver s =
     (let s1 = disconnect s;
          (debouncedEnhance, s2) = debounce EnhanceNewElements 250 s1;
          s3 = s2\<lparr>mutationObserver :=
                   Some \<lparr>debouncedEnhance = debouncedEnhance, target = None\<rparr>\<rparr>;
          appElement =
            (case document_querySelector selectors_app s3 of
               Some a \<Rightarrow> Some a
             | None \<Rightarrow> (case body s3 of Some b \<Rightarrow> Some [] | None \<Rightarrow> None))
      in case appElement of
           None \<Rightarrow> Inl (TypeError ''observe: parameter 1 is not of type Node'', s3)
         | Some n \<Rightarrow>
             Inr (s3\<lparr>mutationObserver :=
                       Some \<lparr>debouncedEnhance = debouncedEnhance, target = Some n\<rparr>\<rparr>))"

section \<open>Event handlers and initialization\<close>

definition attachEventHandlers :: "page \<Rightarrow> page" where
  "attachEventHandlers s =
     s\<lparr>listeners := listeners s @ [OnClick, OnKeydown, OnThemeChanged, OnSidebarToggled]\<rparr>"

text \<open>The function \<open>initUI\<close> wraps with \<open>debounce\<close> as \<open>handleResize\<close>.\<close>

definition handleResize :: "page \<Rightarrow> page" where
  "handleResize s =
     (case document_querySelector selectors_sidebar s of
        None \<Rightarrow> s
      | Some sidebar \<Rightarrow>
          if innerWidth s \<le> 768 then classList_add sidebar ''mobile'' s
          else classList_remove sidebar ''mobile'' s)"

text \<open>The body of the \<open>try\<close> block of \<open>initUI\<close>, and \<open>initUI\<close> with its \<open>catch\<close>.\<close>

definition initUI_try :: "page \<Rightarrow> (fault \<times> page) + page" where
  "initUI_try s =
     (let savedTheme = getTheme s;
          s1 = setTheme savedTheme s;
          s2 = applySavedSidebarState s1;
          s3 = enhanceNewElements s2
      in case setupMutationObserver s3 of
           Inl thrown \<Rightarrow> Inl thrown
         | Inr s4 \<Rightarrow>
             (let s5 = attachEventHandlers s4;
                  (handleResize, s6) = debounce HandleResize 250 s5;
                  s7 = s6\<lparr>listeners := listeners s6 @ [OnResize handleResize]\<rparr>;
                  s8 = executedFunction handleResize s7
              in Inr (console_write LOG ''AI Research Agent Dashboard initialized'' s8)))"

fun message :: "fault \<Rightarrow> string" where
  "message (TypeError m) = ''TypeError: '' @ m"

definition initUI :: "page \<Rightarrow> (fault \<times> page) + page" where
  "initUI s =
     (case initUI_try s of
        Inr s' \<Rightarrow> Inr s'
      | Inl (error, s') \<Rightarrow>
          Inr (console_write ERROR (''Error initializing UI: '' @ message error) s'))"

definition cleanup :: "page \<Rightarrow> page" where
  "cleanup s = disconnect s"

section \<open>Auto-initialization\<close>



section \<open>The event loop\<close>









section \<open>Auxiliary definitions\<close>

text \<open>The console lines that the script's own listener writes for a custom event.\<close>

fun echo :: "event \<Rightarrow> listener \<Rightarrow> (level \<times> string) list" where
  "echo (ThemeChanged t) OnThemeChanged = [(LOG, ''Theme changed to: '' @ t)]"
| "echo (SidebarToggled b) OnSidebarToggled =
     [(LOG, ''Sidebar collapsed: '' @ (if b then ''true'' else ''false''))]"
| "echo ev l = []"

text \<open>The string the script stores and writes as an attribute for a collapsed flag.\<close>

definition encode :: "bool \<Rightarrow> string" where
  "encode b = (if b then ''true'' else ''false'')"

text \<open>
  A page as the browser hands it to the script: a document body and the content of the
  storage backend, with nothing dispatched, logged, registered or scheduled yet.
\<close>

definition new_page :: "element option \<Rightarrow> (string \<rightharpoonup> string) \<Rightarrow> page" where
  "new_page b st =
     \<lparr>body = b, storage = st, dispatched = [], console = [], listeners = [],
      mutationObserver = None, closures = [], clock = 0, pending = [], next_id = 0,
      streamlitReady = None, reducedMotion = False, innerWidth = 1024, invoked = [],
      polled = [], activated = []\<rparr>"

text \<open>Two small documents: an app root alone, and an app root holding a sidebar.\<close>

definition app_only :: element where
  "app_only = Element [''stApp''] [] [] []"

definition app_with_sidebar :: element where
  "app_with_sidebar = Element [''stApp''] [] [] [Element [''stSidebar''] [] [] []]"

text \<open>
  The enhancement pass as a recursion over the document, used to reason about
  \<open>enhanceNewElements\<close>: \<open>bar_of\<close> is the progress bar as a decoration leaves it,
  \<open>decorate\<close> what a decoration does to a box, \<open>decorate_at\<close> the effect of
  \<open>decorateSummaryBox\<close> on the document, and \<open>enhance\<close> the whole pass.
\<close>

definition bar_of :: "bool \<Rightarrow> element" where
  "bar_of r = (if r then el_setStyle ''opacity'' ''0.3'' (el_setStyle ''width'' ''100%'' progressBar)
               else progressBar)"

definition decorate :: "bool \<Rightarrow> element \<Rightarrow> element" where
  "decorate r e = el_appendChild (bar_of r) (el_appendChild icon (el_setStyle ''position'' ''relative'' e))"

definition decorate_at :: "bool \<Rightarrow> node \<Rightarrow> element \<Rightarrow> element" where
  "decorate_at r n b =
     (case node_at n b of
        None \<Rightarrow> b
      | Some e \<Rightarrow> if select_kids ''summary-icon'' 0 (childNodes e) \<noteq> [] then b
                  else update_at n (decorate r) b)"

fun enhance :: "bool \<Rightarrow> element \<Rightarrow> element" where
  "enhance r (Element c a st ks) =
     (if selectors_summaryBox \<in> set c \<and> select_kids ''summary-icon'' 0 ks = []
      then decorate r (Element c a st (map (enhance r) ks))
      else Element c a st (map (enhance r) ks))"

text \<open>
  The number of children, and of descendants, of an element that carry a class.
\<close>

definition children_with :: "string \<Rightarrow> element \<Rightarrow> nat" where
  "children_with c e = length (filter (\<lambda>k. c \<in> set (classList k)) (childNodes e))"

definition descendants_with :: "string \<Rightarrow> element \<Rightarrow> nat" where
  "descendants_with c e = length (select_kids c 0 (childNodes e))"

text \<open>
  Documents with summary boxes: two undecorated boxes in the app root, a box that
  already holds an element of class \<open>summary-icon\<close>, and a box inside a box.
\<close>

definition two_boxes :: element where
  "two_boxes = Element [''stApp''] [] []
     [Element [''summary-box''] [] [] [], Element [''summary-box''] [] [] []]"

definition marked_box :: element where
  "marked_box = Element [''summary-box''] [] [] [Element [''summary-icon''] [] [] []]"

definition nested_boxes :: element where
  "nested_boxes = Element [''summary-box''] [] [] [Element [''summary-box''] [] [] []]"

text \<open>The page as \<open>initUI\<close> has it when it comes to set up the observer.\<close>

definition prepared :: "page \<Rightarrow> page" where
  "prepared s = enhanceNewElements (applySavedSidebarState (setTheme (getTheme s) s))"








text \<open>
  The pending timers of the bootstrap poll: the interval's, and the one that abandons it.
\<close>

definition tick_timers :: "page \<Rightarrow> timer list" where
  "tick_timers s = filter (\<lambda>u. callback u = StreamlitReadyTick) (pending s)"

definition timeout_timers :: "page \<Rightarrow> timer list" where
  "timeout_timers s = filter (\<lambda>u. callback u = StreamlitReadyTimeout) (pending s)"

text \<open>
  Invariants of the timer queue. A page is \<open>hygienic\<close> when every pending timer has a
  handle below the counter and is not overdue, no two pending timers share a handle, and
  the handle in a closure variable is below the counter and names, if anything still
  pending, a timer of a debounced closure. \<open>quiet_step s s'\<close>: getting from \<open>s\<close> to \<open>s'\<close>
  leaves the clock and the records of the poll alone, and keeps a hygienic page hygienic
  with the timers of the poll as they were. \<open>poll_state\<close>: the checks so far were made at
  500, 1000, ... and there are at most 20 of them; the abandoning timer, when pending, is
  due at 10000; the interval timer, when pending, is due 500 after the last check, under
  the handle \<open>streamlitReady\<close>, with the abandoning timer still pending and no activation
  made; and an activation, if made, was made by the last check.
\<close>

fun is_later :: "callback \<Rightarrow> bool" where
  "is_later (Later c) = True"
| "is_later cb = False"


definition hygienic :: "page \<Rightarrow> bool" where
  "hygienic s =
     ((\<forall>u \<in> set (pending s). timer_id u < next_id s \<and> clock s \<le> due u)
      \<and> distinct (map timer_id (pending s))
      \<and> (\<forall>d \<in> set (closures s). \<forall>j. timeout d = Some j \<longrightarrow>
            j < next_id s \<and> (\<forall>u \<in> set (pending s). timer_id u = j \<longrightarrow> is_later (callback u))))"

definition quiet_step :: "page \<Rightarrow> page \<Rightarrow> bool" where
  "quiet_step s s' =
     (polled s' = polled s \<and> activated s' = activated s
      \<and> streamlitReady s' = streamlitReady s \<and> clock s' = clock s
      \<and> (hygienic s \<longrightarrow>
            hygienic s' \<and> tick_timers s' = tick_timers s
            \<and> timeout_timers s' = timeout_timers s))"




section \<open>Lemmas about the document\<close>

lemma select_all_unfold:
  "select_all c e = (if c \<in> set (classList e) then [[]] else []) @ select_kids c 0 (childNodes e)"
  by (cases e) simp

lemma node_at_update_at: "node_at p (update_at p f d) = map_option f (node_at p d)"
proof (induction p arbitrary: d)
  case Nil
  show ?case by simp
next
  case (Cons i p)
  show ?case by (cases d) (simp add: Cons.IH)
qed

lemma select_kids_list_update:
  "i < length ks \<Longrightarrow> select_all c k' = select_all c (ks ! i) \<Longrightarrow>
   select_kids c n (ks[i := k']) = select_kids c n ks"
proof (induction ks arbitrary: i n)
  case Nil
  then show ?case by simp
next
  case (Cons k ks)
  then show ?case by (cases i) simp_all
qed

lemma select_all_update_at:
  assumes kids: "\<And>e. childNodes (f e) = childNodes e"
    and cls: "\<And>e. (c \<in> set (classList (f e))) = (c \<in> set (classList e))"
  shows "select_all c (update_at p f d) = select_all c d"
proof (induction p arbitrary: d)
  case Nil
  show ?case by (simp add: select_all_unfold [of c "f d"] select_all_unfold [of c d] kids cls)
next
  case (Cons i p)
  show ?case by (cases d) (simp add: Cons.IH select_kids_list_update)
qed

lemma shell_update_at:
  assumes kids: "\<And>e. childNodes (f e) = childNodes e"
    and keep: "\<And>e. obs (f e) = obs e"
    and shell: "\<And>c a st ks ks'. obs (Element c a st ks) = obs (Element c a st ks')"
  shows "map_option obs (node_at q (update_at p f d)) = map_option obs (node_at q d)"
proof (induction p arbitrary: q d)
  case Nil
  show ?case by (cases q) (simp_all add: keep kids)
next
  case (Cons i p)
  show ?case
  proof (cases d)
    case (Element c a st ks)
    show ?thesis
    proof (cases q)
      case Nil
      then show ?thesis using Element shell by simp
    next
      case (Cons j q')
      then show ?thesis using Element Cons.IH [of q' "ks ! i"]
        by (cases "j = i") simp_all
    qed
  qed
qed

lemma select_valid:
  "p \<in> set (select_all c d) \<Longrightarrow> \<exists>e. node_at p d = Some e \<and> c \<in> set (classList e)"
  "p \<in> set (select_kids c i ks) \<Longrightarrow>
     \<exists>j q e. p = (i + j) # q \<and> j < length ks \<and> node_at q (ks ! j) = Some e \<and> c \<in> set (classList e)"
proof (induction c d and c i ks arbitrary: p and p rule: select_all_select_kids.induct)
  case (1 c cs a st ks)
  then show ?case by (fastforce split: if_splits)
next
  case (2 c i)
  then show ?case by simp
next
  case (3 c i k ks)
  from "3.prems" consider (a) "p \<in> (#) i ` set (select_all c k)" | (b) "p \<in> set (select_kids c (Suc i) ks)"
    by auto
  then show ?case
  proof cases
    case a
    then obtain q where "p = i # q" "q \<in> set (select_all c k)" by auto
    with "3.IH"(1) show ?thesis by (intro exI [of _ 0]) auto
  next
    case b
    from "3.IH"(2) [OF b] obtain j q e where
      "p = (Suc i + j) # q" "j < length ks" "node_at q (ks ! j) = Some e" "c \<in> set (classList e)"
      by blast
    then show ?thesis by (intro exI [of _ "Suc j"]) auto
  qed
qed

lemma notify_echo: "notify ev l s = s\<lparr>console := console s @ echo ev l\<rparr>"
  by (cases "(ev, l, s)" rule: notify.cases) (simp_all add: console_write_def)

lemma fold_notify_echo:
  "fold (notify ev) ls s = s\<lparr>console := console s @ concat (map (echo ev) ls)\<rparr>"
  by (induction ls arbitrary: s) (simp_all add: notify_echo)

lemma dispatchEvent_eq:
  "dispatchEvent ev s =
     s\<lparr>dispatched := dispatched s @ [ev],
       console := console s @ concat (map (echo ev) (listeners s))\<rparr>"
  by (simp add: dispatchEvent_def fold_notify_echo)

lemma document_querySelector_on_element:
  assumes "\<And>e. childNodes (f e) = childNodes e"
    and "\<And>e. (c \<in> set (classList (f e))) = (c \<in> set (classList e))"
  shows "document_querySelector c (on_element n f s) = document_querySelector c s"
  using assms
  by (cases "body s")
    (simp_all add: document_querySelector_def document_querySelectorAll_def on_element_def
      select_all_update_at)

lemma element_at_on_element:
  "element_at n (on_element n f s) = map_option f (element_at n s)"
  by (cases "body s") (simp_all add: element_at_def on_element_def node_at_update_at)

lemma document_querySelector_valid:
  assumes "document_querySelector c s = Some n"
  shows "\<exists>e. element_at n s = Some e \<and> c \<in> set (classList e)"
proof -
  from assms obtain b where b: "body s = Some b" and "n \<in> set (select_all c b)"
    by (auto simp: document_querySelector_def document_querySelectorAll_def
        split: option.splits list.splits)
  with select_valid(1) [of n c b] show ?thesis by (simp add: element_at_def)
qed

lemma kids_setAttribute [simp]: "childNodes (el_setAttribute k v e) = childNodes e"
  by (cases e) simp
lemma cls_setAttribute [simp]: "classList (el_setAttribute k v e) = classList e"
  by (cases e) simp
lemma attrs_setAttribute [simp]:
  "map_of (attributes (el_setAttribute k v e)) = (map_of (attributes e))(k \<mapsto> v)"
  by (cases e) (simp add: update_conv')
lemma kids_classList_add [simp]: "childNodes (el_classList_add x e) = childNodes e"
  by (cases e) simp
lemma kids_classList_remove [simp]: "childNodes (el_classList_remove x e) = childNodes e"
  by (cases e) simp
lemma attrs_classList_add [simp]: "attributes (el_classList_add x e) = attributes e"
  by (cases e) simp
lemma attrs_classList_remove [simp]: "attributes (el_classList_remove x e) = attributes e"
  by (cases e) simp
lemma cls_classList_add [simp]: "set (classList (el_classList_add x e)) = insert x (set (classList e))"
  by (cases e) auto
lemma cls_classList_remove [simp]: "set (classList (el_classList_remove x e)) = set (classList e) - {x}"
  by (cases e) auto

lemma setTheme_present:
  assumes app: "document_querySelector selectors_app s = Some appElement"
    and valid: "theme \<in> set themes"
  shows "setTheme theme s =
      (setAttribute appElement ''data-theme'' theme s)
        \<lparr>storage := (storage s)(storageKeys_theme \<mapsto> theme),
         dispatched := dispatched s @ [ThemeChanged theme],
         console := console s @ concat (map (echo (ThemeChanged theme)) (listeners s))\<rparr>"
  using assms
  by (simp add: setTheme_def dispatchEvent_eq storage_setItem_def setAttribute_def on_element_def)

lemma getAttribute_setAttribute:
  "element_at n s \<noteq> None \<Longrightarrow> getAttribute n k (setAttribute n k v s) = Some v"
  by (auto simp: getAttribute_def setAttribute_def element_at_on_element)

lemma setTheme_invalid:
  "theme \<notin> set themes \<Longrightarrow>
   setTheme theme s =
     setTheme defaultTheme (console_write WARN (''Invalid theme: '' @ theme @ ''. Using default.'') s)"
  by (simp add: setTheme_def themes_def defaultTheme_def)

lemma document_querySelector_console_write [simp]:
  "document_querySelector c (console_write l m s) = document_querySelector c s"
  by (simp add: document_querySelector_def document_querySelectorAll_def console_write_def)

lemma setTheme_effect:
  assumes app: "document_querySelector selectors_app s = Some appElement"
    and valid: "theme \<in> set themes"
  shows "getAttribute appElement ''data-theme'' (setTheme theme s) = Some theme"
    and "storage (setTheme theme s) storageKeys_theme = Some theme"
    and "getTheme (setTheme theme s) = theme"
    and "document_querySelector selectors_app (setTheme theme s) = Some appElement"
    and "dispatched (setTheme theme s) = dispatched s @ [ThemeChanged theme]"
    and "\<exists>rest. console (setTheme theme s) = console s @ rest"
proof -
  let ?s1 = "setAttribute appElement ''data-theme'' theme s"
  have eq: "setTheme theme s =
      ?s1\<lparr>storage := (storage s)(storageKeys_theme \<mapsto> theme),
         dispatched := dispatched s @ [ThemeChanged theme],
         console := console s @ concat (map (echo (ThemeChanged theme)) (listeners s))\<rparr>"
    by (rule setTheme_present [OF app valid])
  from document_querySelector_valid [OF app] have ex: "element_at appElement s \<noteq> None"
    by auto
  have attr: "getAttribute appElement ''data-theme'' ?s1 = Some theme"
    by (rule getAttribute_setAttribute [OF ex])
  show "getAttribute appElement ''data-theme'' (setTheme theme s) = Some theme"
    using attr by (simp add: eq getAttribute_def element_at_def)
  show "storage (setTheme theme s) storageKeys_theme = Some theme"
    by (simp add: eq)
  have "theme \<noteq> []" using valid by (auto simp: themes_def)
  then show "getTheme (setTheme theme s) = theme"
    by (simp add: eq getTheme_def storage_getItem_def)
  have "document_querySelector selectors_app ?s1 = Some appElement"
    unfolding setAttribute_def
    by (subst document_querySelector_on_element) (simp_all add: app)
  then show "document_querySelector selectors_app (setTheme theme s) = Some appElement"
    by (simp add: eq document_querySelector_def document_querySelectorAll_def)
  show "dispatched (setTheme theme s) = dispatched s @ [ThemeChanged theme]"
    by (simp add: eq)
  show "\<exists>rest. console (setTheme theme s) = console s @ rest"
    by (simp add: eq setAttribute_def on_element_def)
qed

text \<open>
  Claim C2, as the code has it. When the app root element is present, \<open>setTheme\<close> with a
  name outside \<open>themes\<close> writes the default theme to the root's \<open>data-theme\<close> attribute
  and to storage, makes \<open>getTheme\<close> read the default, dispatches \<open>themeChanged\<close> with the
  default, and writes the warning to the console.
\<close>

theorem setTheme_invalid_uses_default:
  assumes "theme \<notin> set themes"
    and "document_querySelector selectors_app s = Some appElement"
  shows "getAttribute appElement ''data-theme'' (setTheme theme s) = Some defaultTheme
     \<and> storage (setTheme theme s) storageKeys_theme = Some defaultTheme
     \<and> getTheme (setTheme theme s) = defaultTheme
     \<and> document_querySelector selectors_app (setTheme theme s) = Some appElement
     \<and> dispatched (setTheme theme s) = dispatched s @ [ThemeChanged defaultTheme]
     \<and> (\<exists>rest. console (setTheme theme s) =
           console s @ (WARN, ''Invalid theme: '' @ theme @ ''. Using default.'') # rest)"
proof -
  let ?w = "console_write WARN (''Invalid theme: '' @ theme @ ''. Using default.'') s"
  have eq: "setTheme theme s = setTheme defaultTheme ?w"
    by (rule setTheme_invalid [OF assms(1)])
  have app: "document_querySelector selectors_app ?w = Some appElement"
    using assms(2) by simp
  have d: "defaultTheme \<in> set themes" by (simp add: defaultTheme_def themes_def)
  note fx = setTheme_effect [OF app d]
  from fx(6) obtain rest where "console (setTheme defaultTheme ?w) = console ?w @ rest" ..
  then have "\<exists>rest. console (setTheme theme s) =
      console s @ (WARN, ''Invalid theme: '' @ theme @ ''. Using default.'') # rest"
    unfolding eq by (simp add: console_write_def)
  moreover have "dispatched ?w = dispatched s" by (simp add: console_write_def)
  ultimately show ?thesis using fx(1-5) unfolding eq by simp
qed

text \<open>The theorem at a page whose body is the app root, for the name \<open>Neon\<close>.\<close>

theorem setTheme_invalid_witness:
  "''Neon'' \<notin> set themes
   \<and> document_querySelector selectors_app (new_page (Some app_only) Map.empty) = Some []
   \<and> getAttribute [] ''data-theme'' (setTheme ''Neon'' (new_page (Some app_only) Map.empty)) = Some ''Light''
   \<and> getTheme (setTheme ''Neon'' (new_page (Some app_only) Map.empty)) = ''Light''"
proof -
  have h1: "''Neon'' \<notin> set themes" by (simp add: themes_def)
  have h2: "document_querySelector selectors_app (new_page (Some app_only) Map.empty) = Some []"
    by (simp add: document_querySelector_def document_querySelectorAll_def new_page_def
        app_only_def selectors_app_def)
  from setTheme_invalid_uses_default [OF h1 h2] h1 h2 show ?thesis
    by (simp add: defaultTheme_def)
qed

text \<open>
  Without an app root the invalid name changes nothing but the console: a persisted
  \<open>Dark\<close> stays the active theme, so the default does not become active.
\<close>

theorem setTheme_invalid_without_root:
  "''Neon'' \<notin> set themes
   \<and> getTheme (new_page None [storageKeys_theme \<mapsto> ''Dark'']) = ''Dark''
   \<and> getTheme (setTheme ''Neon'' (new_page None [storageKeys_theme \<mapsto> ''Dark''])) = ''Dark''
   \<and> storage (setTheme ''Neon'' (new_page None [storageKeys_theme \<mapsto> ''Dark''])) storageKeys_theme
        = Some ''Dark''
   \<and> ''Dark'' \<noteq> defaultTheme"
  by (simp add: setTheme_def themes_def defaultTheme_def getTheme_def storage_getItem_def
      new_page_def document_querySelector_def document_querySelectorAll_def console_write_def)

lemma toggleTheme_step:
  assumes "i < length themes" and "getTheme s = themes ! i"
  shows "toggleTheme s = setTheme (themes ! ((i + 1) mod length themes)) s"
proof -
  from assms(1) have "i = 0 \<or> i = 1 \<or> i = 2" by (auto simp: themes_def)
  then show ?thesis using assms(2)
    by (auto simp: toggleTheme_def indexOf_def themes_def)
qed

lemma classList_on_element:
  assumes "\<And>e. childNodes (f e) = childNodes e" and "\<And>e. classList (f e) = classList e"
  shows "classList_contains q x (on_element p f s) = classList_contains q x s"
proof (cases "body s")
  case None
  then show ?thesis by (simp add: classList_contains_def element_at_def on_element_def)
next
  case (Some b)
  have "map_option classList (node_at q (update_at p f b)) = map_option classList (node_at q b)"
    by (rule shell_update_at) (simp_all add: assms)
  then show ?thesis using Some
    by (auto simp: classList_contains_def element_at_def on_element_def split: option.splits)
qed

lemma getAttribute_on_element:
  assumes "\<And>e. childNodes (f e) = childNodes e" and "\<And>e. attributes (f e) = attributes e"
  shows "getAttribute q k (on_element p f s) = getAttribute q k s"
proof (cases "body s")
  case None
  then show ?thesis by (simp add: getAttribute_def element_at_def on_element_def)
next
  case (Some b)
  have "map_option attributes (node_at q (update_at p f b)) = map_option attributes (node_at q b)"
    by (rule shell_update_at) (simp_all add: assms)
  then show ?thesis using Some
    by (auto simp: getAttribute_def element_at_def on_element_def split: option.splits)
qed

lemma defined_on_element:
  assumes "\<And>e. childNodes (f e) = childNodes e"
  shows "(element_at q (on_element p f s) = None) = (element_at q s = None)"
proof (cases "body s")
  case None
  then show ?thesis by (simp add: element_at_def on_element_def)
next
  case (Some b)
  have "map_option (\<lambda>_. ()) (node_at q (update_at p f b)) = map_option (\<lambda>_. ()) (node_at q b)"
    by (rule shell_update_at) (simp_all add: assms)
  then have "(node_at q (update_at p f b) = None) = (node_at q b = None)"
    by (cases "node_at q (update_at p f b)"; cases "node_at q b") simp_all
  then show ?thesis using Some by (simp add: element_at_def on_element_def)
qed

lemma toggleSidebar_effect:
  assumes sb: "document_querySelector selectors_sidebar s = Some sidebar"
    and app: "document_querySelector selectors_app s = Some appElement"
  shows "document_querySelector selectors_sidebar (toggleSidebar s) = Some sidebar"
    and "document_querySelector selectors_app (toggleSidebar s) = Some appElement"
    and "classList_contains sidebar ''collapsed'' (toggleSidebar s) =
          (\<not> classList_contains sidebar ''collapsed'' s)"
    and "getAttribute appElement ''data-sidebar-collapsed'' (toggleSidebar s) =
          Some (encode (\<not> classList_contains sidebar ''collapsed'' s))"
    and "storage (toggleSidebar s) storageKeys_sidebarCollapsed =
          Some (encode (\<not> classList_contains sidebar ''collapsed'' s))"
    and "dispatched (toggleSidebar s) =
          dispatched s @ [SidebarToggled (\<not> classList_contains sidebar ''collapsed'' s)]"
proof -
  let ?c = "classList_contains sidebar ''collapsed'' s"
  let ?s1 = "if ?c then classList_remove sidebar ''collapsed'' s
             else classList_add sidebar ''collapsed'' s"
  let ?s2 = "setAttribute appElement ''data-sidebar-collapsed'' (encode (\<not> ?c)) ?s1"
  have eq: "toggleSidebar s =
      ?s2\<lparr>storage := (storage s)(storageKeys_sidebarCollapsed \<mapsto> encode (\<not> ?c)),
          dispatched := dispatched s @ [SidebarToggled (\<not> ?c)],
          console := console s @ concat (map (echo (SidebarToggled (\<not> ?c))) (listeners s))\<rparr>"
    using sb app
    by (simp add: toggleSidebar_def dispatchEvent_eq storage_setItem_def setAttribute_def
        classList_add_def classList_remove_def on_element_def encode_def Let_def)
  have body_eq: "body (toggleSidebar s) = body ?s2" by (simp add: eq)
  have q1: "document_querySelector c ?s1 = document_querySelector c s"
    if "c \<noteq> ''collapsed''" for c
    using that unfolding classList_add_def classList_remove_def
    by (auto intro!: document_querySelector_on_element)
  have q2: "document_querySelector c ?s2 = document_querySelector c ?s1" for c
    unfolding setAttribute_def by (rule document_querySelector_on_element) simp_all
  have q: "document_querySelector c (toggleSidebar s) = document_querySelector c s"
    if "c \<noteq> ''collapsed''" for c
    using q1 [OF that] q2 [of c] body_eq
    by (simp add: document_querySelector_def document_querySelectorAll_def)
  show "document_querySelector selectors_sidebar (toggleSidebar s) = Some sidebar"
    using q [of selectors_sidebar] sb by (simp add: selectors_sidebar_def)
  show "document_querySelector selectors_app (toggleSidebar s) = Some appElement"
    using q [of selectors_app] app by (simp add: selectors_app_def)
  from document_querySelector_valid [OF sb] obtain e where e: "element_at sidebar s = Some e"
    by auto
  from document_querySelector_valid [OF app] obtain a where a: "element_at appElement s = Some a"
    by auto
  have c1: "classList_contains sidebar ''collapsed'' ?s1 = (\<not> ?c)"
    using e
    by (simp add: classList_contains_def classList_add_def classList_remove_def
        element_at_on_element)
  have c2: "classList_contains sidebar ''collapsed'' ?s2 =
      classList_contains sidebar ''collapsed'' ?s1"
    unfolding setAttribute_def by (rule classList_on_element) simp_all
  show "classList_contains sidebar ''collapsed'' (toggleSidebar s) = (\<not> ?c)"
    using c1 c2 body_eq by (simp add: classList_contains_def element_at_def)
  have "(element_at appElement ?s1 = None) = (element_at appElement s = None)"
    by (simp add: classList_add_def classList_remove_def defined_on_element)
  with a have "element_at appElement ?s1 \<noteq> None" by simp
  then have "getAttribute appElement ''data-sidebar-collapsed'' ?s2 = Some (encode (\<not> ?c))"
    by (rule getAttribute_setAttribute)
  then show "getAttribute appElement ''data-sidebar-collapsed'' (toggleSidebar s) =
      Some (encode (\<not> ?c))"
    using body_eq by (simp add: getAttribute_def element_at_def)
  show "storage (toggleSidebar s) storageKeys_sidebarCollapsed = Some (encode (\<not> ?c))"
    by (simp add: eq)
  show "dispatched (toggleSidebar s) = dispatched s @ [SidebarToggled (\<not> ?c)]"
    by (simp add: eq setAttribute_def classList_add_def classList_remove_def on_element_def)
qed

lemma toggleTheme_next:
  assumes app: "document_querySelector selectors_app s = Some appElement"
    and i: "i < length themes" and cur: "getTheme s = themes ! i"
  shows "getTheme (toggleTheme s) = themes ! ((i + 1) mod length themes)"
    and "getAttribute appElement ''data-theme'' (toggleTheme s) =
          Some (themes ! ((i + 1) mod length themes))"
    and "document_querySelector selectors_app (toggleTheme s) = Some appElement"
proof -
  let ?t = "themes ! ((i + 1) mod length themes)"
  have eq: "toggleTheme s = setTheme ?t s" by (rule toggleTheme_step [OF i cur])
  have "(i + 1) mod length themes < length themes" by (simp add: themes_def)
  then have v: "?t \<in> set themes" by (rule nth_mem)
  note fx = setTheme_effect [OF app v]
  show "getTheme (toggleTheme s) = ?t" unfolding eq by (rule fx(3))
  show "getAttribute appElement ''data-theme'' (toggleTheme s) = Some ?t"
    unfolding eq by (rule fx(1))
  show "document_querySelector selectors_app (toggleTheme s) = Some appElement"
    unfolding eq by (rule fx(4))
qed

text \<open>
  Claim C3, as the code has it. When the app root element is present and the active theme
  is the \<open>i\<close>-th member of \<open>themes\<close>, one \<open>toggleTheme\<close> makes the next member active
  (wrapping from the last to the first), in storage and on the root's attribute, and
  \<open>length themes\<close> applications bring the original theme back.
\<close>

theorem toggleTheme_cycle:
  assumes app: "document_querySelector selectors_app s = Some appElement"
    and i: "i < length themes" and cur: "getTheme s = themes ! i"
  shows "getTheme (toggleTheme s) = themes ! ((i + 1) mod length themes)
     \<and> getAttribute appElement ''data-theme'' (toggleTheme s) =
         Some (themes ! ((i + 1) mod length themes))
     \<and> getTheme ((toggleTheme ^^ length themes) s) = getTheme s
     \<and> getAttribute appElement ''data-theme'' ((toggleTheme ^^ length themes) s) =
         Some (getTheme s)"
proof -
  let ?n = "length themes"
  let ?s1 = "toggleTheme s"
  let ?s2 = "toggleTheme ?s1"
  let ?s3 = "toggleTheme ?s2"
  have len: "?n = 3" by (simp add: themes_def)
  have lt: "k mod ?n < ?n" for k by (simp add: len)
  note a1 = toggleTheme_next [OF app i cur]
  note a2 = toggleTheme_next [OF a1(3) lt a1(1)]
  note a3 = toggleTheme_next [OF a2(3) lt a2(1)]
  have wrap3: "(((i + 1) mod ?n + 1) mod ?n + 1) mod ?n = i"
    using i unfolding len by presburger
  have three: "(toggleTheme ^^ ?n) s = ?s3" by (simp add: len numeral_3_eq_3)
  show ?thesis using a1(1,2) a3(1,2) by (simp only: three wrap3 cur)
qed

text \<open>The theorem at a page with the app root and \<open>Cyberpunk\<close> persisted.\<close>

theorem toggleTheme_cycle_witness:
  "document_querySelector selectors_app (new_page (Some app_only) [storageKeys_theme \<mapsto> ''Cyberpunk'']) = Some []
   \<and> getTheme (new_page (Some app_only) [storageKeys_theme \<mapsto> ''Cyberpunk'']) = themes ! 2
   \<and> getTheme (toggleTheme (new_page (Some app_only) [storageKeys_theme \<mapsto> ''Cyberpunk''])) = ''Light''
   \<and> getTheme ((toggleTheme ^^ length themes) (new_page (Some app_only) [storageKeys_theme \<mapsto> ''Cyberpunk'']))
       = ''Cyberpunk''"
proof -
  let ?s = "new_page (Some app_only) [storageKeys_theme \<mapsto> ''Cyberpunk'']"
  have h1: "document_querySelector selectors_app ?s = Some []"
    by (simp add: document_querySelector_def document_querySelectorAll_def new_page_def
        app_only_def selectors_app_def)
  have h2: "(2::nat) < length themes" by (simp add: themes_def)
  have h3: "getTheme ?s = themes ! 2"
    by (simp add: getTheme_def storage_getItem_def new_page_def themes_def)
  from toggleTheme_cycle [OF h1 h2 h3] h1 h3 show ?thesis
    by (simp add: themes_def)
qed

text \<open>
  Two starting states where the cycle property fails: from a persisted name outside
  \<open>themes\<close> three toggles end at \<open>Cyberpunk\<close>, and without an app root a toggle does
  not advance the theme.
\<close>

theorem toggleTheme_cycle_fails:
  "getTheme (new_page (Some app_only) [storageKeys_theme \<mapsto> ''Solarized'']) = ''Solarized''
   \<and> getTheme ((toggleTheme ^^ length themes)
         (new_page (Some app_only) [storageKeys_theme \<mapsto> ''Solarized''])) = ''Cyberpunk''
   \<and> getTheme (new_page None [storageKeys_theme \<mapsto> ''Light'']) = ''Light''
   \<and> getTheme (toggleTheme (new_page None [storageKeys_theme \<mapsto> ''Light''])) = ''Light''"
  by (simp add: numeral_3_eq_3 toggleTheme_def setTheme_def getTheme_def storage_getItem_def
      storage_setItem_def setAttribute_def on_element_def dispatchEvent_def indexOf_def
      themes_def defaultTheme_def new_page_def app_only_def selectors_app_def
      document_querySelector_def document_querySelectorAll_def storageKeys_theme_def)

lemma toggleSidebar_absent:
  "document_querySelector selectors_sidebar s = None \<or>
   document_querySelector selectors_app s = None \<Longrightarrow> toggleSidebar s = s"
  by (auto simp: toggleSidebar_def split: option.splits)

text \<open>
  Claim C4, as the code has it. When the sidebar or the app root is absent, toggling does
  nothing. Otherwise one toggle flips the \<open>collapsed\<close> class, two toggles restore it, and
  after two toggles the root attribute and the persisted value are the encoding of the
  original class state: they are restored exactly when they agreed with the class before.
\<close>

theorem toggleSidebar_twice:
  "case (document_querySelector selectors_sidebar s, document_querySelector selectors_app s) of
     (Some sidebar, Some appElement) \<Rightarrow>
       (let c = classList_contains sidebar ''collapsed'' s;
            v = (if c then ''true'' else ''false'');
            s2 = toggleSidebar (toggleSidebar s)
        in classList_contains sidebar ''collapsed'' (toggleSidebar s) = (\<not> c)
         \<and> classList_contains sidebar ''collapsed'' s2 = c
         \<and> getAttribute appElement ''data-sidebar-collapsed'' s2 = Some v
         \<and> storage s2 storageKeys_sidebarCollapsed = Some v
         \<and> (getAttribute appElement ''data-sidebar-collapsed'' s2 =
              getAttribute appElement ''data-sidebar-collapsed'' s)
             = (getAttribute appElement ''data-sidebar-collapsed'' s = Some v)
         \<and> (storage s2 storageKeys_sidebarCollapsed = storage s storageKeys_sidebarCollapsed)
             = (storage s storageKeys_sidebarCollapsed = Some v))
   | _ \<Rightarrow> toggleSidebar (toggleSidebar s) = s"
proof (cases "document_querySelector selectors_sidebar s")
  case None
  then show ?thesis by (simp add: toggleSidebar_absent)
next
  case sb: (Some sidebar)
  show ?thesis
  proof (cases "document_querySelector selectors_app s")
    case None
    then show ?thesis using sb by (simp add: toggleSidebar_absent)
  next
    case app: (Some appElement)
    note t1 = toggleSidebar_effect [OF sb app]
    note t2 = toggleSidebar_effect [OF t1(1) t1(2)]
    show ?thesis using sb app t1(3) t2(3,4,5)
      by (auto simp: Let_def encode_def)
  qed
qed

text \<open>The theorem at a page with an expanded sidebar inside the app root.\<close>

theorem toggleSidebar_twice_witness:
  "document_querySelector selectors_sidebar (new_page (Some app_with_sidebar) Map.empty) = Some [0]
   \<and> document_querySelector selectors_app (new_page (Some app_with_sidebar) Map.empty) = Some []
   \<and> \<not> classList_contains [0] ''collapsed'' (new_page (Some app_with_sidebar) Map.empty)
   \<and> classList_contains [0] ''collapsed'' (toggleSidebar (new_page (Some app_with_sidebar) Map.empty))
   \<and> \<not> classList_contains [0] ''collapsed''
         (toggleSidebar (toggleSidebar (new_page (Some app_with_sidebar) Map.empty)))
   \<and> storage (toggleSidebar (toggleSidebar (new_page (Some app_with_sidebar) Map.empty)))
         storageKeys_sidebarCollapsed = Some ''false''"
proof -
  let ?s = "new_page (Some app_with_sidebar) Map.empty"
  have h1: "document_querySelector selectors_sidebar ?s = Some [0]"
    by (simp add: document_querySelector_def document_querySelectorAll_def new_page_def
        app_with_sidebar_def selectors_sidebar_def)
  have h2: "document_querySelector selectors_app ?s = Some []"
    by (simp add: document_querySelector_def document_querySelectorAll_def new_page_def
        app_with_sidebar_def selectors_app_def)
  have h3: "\<not> classList_contains [0] ''collapsed'' ?s"
    by (simp add: classList_contains_def element_at_def new_page_def app_with_sidebar_def)
  from toggleSidebar_twice [of ?s] h1 h2 h3 show ?thesis
    by (simp add: Let_def)
qed

text \<open>
  Starting states where two toggles do not restore the persisted value or the attribute:
  a persisted \<open>true\<close> beside an expanded sidebar becomes \<open>false\<close>, and on a first visit
  (nothing persisted, no attribute) both end as \<open>false\<close>.
\<close>

theorem toggleSidebar_twice_fails:
  "storage (new_page (Some app_with_sidebar) [storageKeys_sidebarCollapsed \<mapsto> ''true''])
      storageKeys_sidebarCollapsed = Some ''true''
   \<and> storage (toggleSidebar (toggleSidebar
        (new_page (Some app_with_sidebar) [storageKeys_sidebarCollapsed \<mapsto> ''true''])))
      storageKeys_sidebarCollapsed = Some ''false''
   \<and> storage (new_page (Some app_with_sidebar) Map.empty) storageKeys_sidebarCollapsed = None
   \<and> storage (toggleSidebar (toggleSidebar (new_page (Some app_with_sidebar) Map.empty)))
      storageKeys_sidebarCollapsed = Some ''false''
   \<and> getAttribute [] ''data-sidebar-collapsed'' (new_page (Some app_with_sidebar) Map.empty) = None
   \<and> getAttribute [] ''data-sidebar-collapsed''
        (toggleSidebar (toggleSidebar (new_page (Some app_with_sidebar) Map.empty))) = Some ''false''"
  by (simp add: toggleSidebar_def Let_def storage_setItem_def setAttribute_def
      classList_add_def classList_remove_def classList_contains_def element_at_def getAttribute_def
      on_element_def dispatchEvent_def new_page_def app_with_sidebar_def selectors_app_def
      selectors_sidebar_def document_querySelector_def document_querySelectorAll_def)

text \<open>
  Claim C8, as the code has it. \<open>getTheme\<close> returns the default theme when the key is
  absent or holds the empty string, and otherwise the persisted string, whatever it is.
\<close>

theorem getTheme_reads_storage:
  "(storage s storageKeys_theme = None \<or> storage s storageKeys_theme = Some []
      \<longrightarrow> getTheme s = defaultTheme)
   \<and> (\<forall>v. storage s storageKeys_theme = Some v \<and> v \<noteq> [] \<longrightarrow> getTheme s = v)"
  by (auto simp: getTheme_def storage_getItem_def)

text \<open>
  The theorem at a storage holding a name outside \<open>themes\<close>, which is read back as it
  is, and at an empty storage.
\<close>

theorem getTheme_reads_storage_witness:
  "storage (new_page None [storageKeys_theme \<mapsto> ''Solarized'']) storageKeys_theme = Some ''Solarized''
   \<and> ''Solarized'' \<notin> set themes
   \<and> getTheme (new_page None [storageKeys_theme \<mapsto> ''Solarized'']) = ''Solarized''
   \<and> storage (new_page None Map.empty) storageKeys_theme = None
   \<and> getTheme (new_page None Map.empty) = ''Light''"
  using getTheme_reads_storage [of "new_page None [storageKeys_theme \<mapsto> ''Solarized'']"]
    getTheme_reads_storage [of "new_page None Map.empty"]
  by (simp add: new_page_def themes_def defaultTheme_def)

text \<open>A persisted empty string is present under the key, and the default is returned.\<close>

theorem getTheme_empty_string:
  "storage (new_page None [storageKeys_theme \<mapsto> '''']) storageKeys_theme = Some ''''
   \<and> getTheme (new_page None [storageKeys_theme \<mapsto> '''']) = ''Light''"
  by (simp add: getTheme_def storage_getItem_def new_page_def defaultTheme_def)

text \<open>
  Claim C10. When the document has no app root element, \<open>setTheme\<close> leaves the storage,
  the document and the dispatched events as they were, for every argument; the console
  is the only part of the page that can differ.
\<close>

theorem setTheme_without_root:
  assumes "document_querySelector selectors_app s = None"
  shows "storage (setTheme theme s) = storage s
     \<and> body (setTheme theme s) = body s
     \<and> dispatched (setTheme theme s) = dispatched s
     \<and> setTheme theme s = s\<lparr>console := console (setTheme theme s)\<rparr>"
proof -
  have "setTheme theme s =
      (if theme \<in> set themes then s
       else console_write WARN (''Invalid theme: '' @ theme @ ''. Using default.'') s)"
    using assms by (simp add: setTheme_def)
  then show ?thesis by (simp add: console_write_def)
qed

text \<open>The theorem at a page without a body, for the valid name \<open>Dark\<close>.\<close>

theorem setTheme_without_root_witness:
  "document_querySelector selectors_app (new_page None [storageKeys_theme \<mapsto> ''Light'']) = None
   \<and> storage (setTheme ''Dark'' (new_page None [storageKeys_theme \<mapsto> ''Light'']))
       = [storageKeys_theme \<mapsto> ''Light'']
   \<and> body (setTheme ''Dark'' (new_page None [storageKeys_theme \<mapsto> ''Light''])) = None
   \<and> dispatched (setTheme ''Dark'' (new_page None [storageKeys_theme \<mapsto> ''Light''])) = []"
proof -
  let ?s = "new_page None [storageKeys_theme \<mapsto> ''Light'']"
  have h: "document_querySelector selectors_app ?s = None"
    by (simp add: document_querySelector_def document_querySelectorAll_def new_page_def)
  from setTheme_without_root [OF h, of "''Dark''"] h show ?thesis
    by (simp add: new_page_def)
qed

section \<open>The enhancement pass\<close>

lemma update_at_comp: "update_at n f (update_at n g b) = update_at n (f \<circ> g) b"
proof (induction n arbitrary: b)
  case Nil
  show ?case by simp
next
  case (Cons i n)
  show ?case by (cases b) (simp add: Cons.IH)
qed

lemma update_at_append: "update_at (n @ m) f b = update_at n (update_at m f) b"
proof (induction n arbitrary: b)
  case Nil
  show ?case by simp
next
  case (Cons i n)
  show ?case by (cases b) (simp add: Cons.IH)
qed

lemma update_at_cong:
  "node_at n b = Some e \<Longrightarrow> f e = g e \<Longrightarrow> update_at n f b = update_at n g b"
proof (induction n arbitrary: b)
  case Nil
  then show ?case by simp
next
  case (Cons i n)
  then show ?case by (cases b) (simp split: if_splits)
qed

lemma update_at_invalid: "node_at n b = None \<Longrightarrow> update_at n f b = b"
proof (induction n arbitrary: b)
  case Nil
  then show ?case by simp
next
  case (Cons i n)
  then show ?case by (cases b) (simp add: list_update_same_conv split: if_splits)
qed

lemma decorate_steps:
  "update_at [Suc (length (childNodes e))] f
     (el_appendChild x (el_appendChild icon (el_setStyle ''position'' ''relative'' e)))
   = el_appendChild (f x) (el_appendChild icon (el_setStyle ''position'' ''relative'' e))"
  by (cases e) (simp add: nth_append list_update_append)

lemma body_decorateSummaryBox:
  "body (decorateSummaryBox n s) = map_option (decorate_at (reducedMotion s) n) (body s)"
proof (cases "body s")
  case None
  then show ?thesis by (simp add: decorateSummaryBox_def element_at_def)
next
  case (Some b)
  show ?thesis
  proof (cases "node_at n b")
    case None
    then show ?thesis using Some
      by (simp add: decorateSummaryBox_def element_at_def decorate_at_def)
  next
    case e: (Some e)
    let ?i = "Suc (length (childNodes e))"
    let ?base = "el_appendChild icon (el_setStyle ''position'' ''relative'' e)"
    have reduced: "update_at n (update_at [?i] (el_setStyle ''opacity'' ''0.3'') \<circ>
          (update_at [?i] (el_setStyle ''width'' ''100%'') \<circ> decorate False)) b
        = update_at n (decorate True) b"
      by (rule update_at_cong [OF e]) (simp add: decorate_steps decorate_def bar_of_def)
    have plain: "update_at n
          (el_appendChild progressBar \<circ> (el_appendChild icon \<circ> el_setStyle ''position'' ''relative'')) b
        = update_at n (decorate False) b"
      by (rule update_at_cong [OF e]) (simp add: decorate_def bar_of_def)
    show ?thesis using Some e reduced plain
      by (simp add: decorateSummaryBox_def element_at_def decorate_at_def element_querySelector_def
          Let_def appendChild_def setStyle_def on_element_def setTimeout_def prefersReducedMotion_def
          update_at_comp update_at_append split: list.splits)
  qed
qed

lemma decorate_at_child:
  "i < length ks \<Longrightarrow>
   decorate_at r (i # p) (Element c a st ks) = Element c a st (ks[i := decorate_at r p (ks ! i)])"
  by (simp add: decorate_at_def split: option.splits)

lemma fold_decorate_at_child:
  "i < length ks \<Longrightarrow>
   fold (decorate_at r) (map ((#) i) ps) (Element c a st ks) =
     Element c a st (ks[i := fold (decorate_at r) ps (ks ! i)])"
proof (induction ps arbitrary: ks)
  case Nil
  then show ?case by simp
next
  case (Cons q ps)
  then show ?case by (simp add: decorate_at_child)
qed

lemma fold_decorate_at_kids:
  assumes "\<And>k. k \<in> set suf \<Longrightarrow> fold (decorate_at r) (select_all c k) k = enhance r k"
  shows "fold (decorate_at r) (select_kids c (length pre) suf) (Element cc a st (pre @ suf @ extra)) =
     Element cc a st (pre @ map (enhance r) suf @ extra)"
  using assms
proof (induction suf arbitrary: pre)
  case Nil
  show ?case by simp
next
  case (Cons k suf)
  have one: "fold (decorate_at r) (map ((#) (length pre)) (select_all c k))
        (Element cc a st (pre @ k # suf @ extra)) =
      Element cc a st (pre @ enhance r k # suf @ extra)"
    by (simp add: fold_decorate_at_child Cons.prems)
  have "fold (decorate_at r) (select_kids c (length (pre @ [enhance r k])) suf)
        (Element cc a st ((pre @ [enhance r k]) @ suf @ extra)) =
      Element cc a st ((pre @ [enhance r k]) @ map (enhance r) suf @ extra)"
    by (rule Cons.IH) (simp add: Cons.prems)
  then have rest: "fold (decorate_at r) (select_kids c (Suc (length pre)) suf)
        (Element cc a st (pre @ enhance r k # suf @ extra)) =
      Element cc a st (pre @ enhance r k # map (enhance r) suf @ extra)"
    by simp
  show ?case by (simp add: one rest)
qed

lemma fold_decorate_at:
  "fold (decorate_at r) (select_all selectors_summaryBox b) b = enhance r b"
proof (induction b)
  case (Element c a st ks)
  have kids: "fold (decorate_at r) (select_kids selectors_summaryBox 0 ks)
        (Element c' a' st' (ks @ extra)) = Element c' a' st' (map (enhance r) ks @ extra)"
    for c' a' st' extra
    using fold_decorate_at_kids [of ks r selectors_summaryBox "[]" c' a' st' extra] Element.IH
    by simp
  show ?case
  proof (cases "selectors_summaryBox \<in> set c")
    case False
    then show ?thesis using kids [of c a st "[]"] by simp
  next
    case cand: True
    show ?thesis
    proof (cases "select_kids ''summary-icon'' 0 ks = []")
      case True
      then have "decorate_at r [] (Element c a st ks) =
          Element c a (AList.update ''position'' ''relative'' st) (ks @ [icon, bar_of r])"
        by (simp add: decorate_at_def decorate_def)
      then show ?thesis
        using cand True kids [of c a "AList.update ''position'' ''relative'' st" "[icon, bar_of r]"]
        by (simp add: decorate_def)
    next
      case False
      then have "decorate_at r [] (Element c a st ks) = Element c a st ks"
        by (simp add: decorate_at_def)
      then show ?thesis using cand False kids [of c a st "[]"] by simp
    qed
  qed
qed

lemma reducedMotion_decorateSummaryBox [simp]:
  "reducedMotion (decorateSummaryBox n s) = reducedMotion s"
  by (simp add: decorateSummaryBox_def Let_def appendChild_def setStyle_def on_element_def
      setTimeout_def split: option.splits)

lemma fold_decorateSummaryBox:
  "body (fold decorateSummaryBox ps s) = map_option (fold (decorate_at (reducedMotion s)) ps) (body s)
   \<and> reducedMotion (fold decorateSummaryBox ps s) = reducedMotion s"
proof (induction ps arbitrary: s)
  case Nil
  show ?case by (simp add: option.map_ident)
next
  case (Cons p ps)
  show ?case by (simp add: Cons.IH body_decorateSummaryBox option.map_comp comp_def)
qed

lemma body_enhanceNewElements:
  "body (enhanceNewElements s) = map_option (enhance (reducedMotion s)) (body s)"
  by (cases "body s")
    (simp_all add: enhanceNewElements_def fold_decorateSummaryBox document_querySelectorAll_def
      fold_decorate_at)

lemma classList_enhance [simp]: "classList (enhance r e) = classList e"
  by (cases e) (simp add: decorate_def)

lemma childNodes_enhance:
  "childNodes (enhance r e) =
     map (enhance r) (childNodes e) @
     (if selectors_summaryBox \<in> set (classList e) \<and> select_kids ''summary-icon'' 0 (childNodes e) = []
      then [icon, bar_of r] else [])"
  by (cases e) (simp add: decorate_def)

lemma node_at_enhance:
  "node_at p b = Some e \<Longrightarrow> node_at p (enhance r b) = Some (enhance r e)"
proof (induction p arbitrary: b)
  case Nil
  then show ?case by simp
next
  case (Cons i p)
  then show ?case
    by (auto simp: childNodes_enhance nth_append split: if_splits)
qed

lemma select_kids_append:
  "select_kids c i (xs @ ys) = select_kids c i xs @ select_kids c (i + length xs) ys"
  by (induction xs arbitrary: i) simp_all

lemma select_kids_map_cong:
  "(\<And>k. k \<in> set ks \<Longrightarrow> select_all c (f k) = select_all c k) \<Longrightarrow>
   select_kids c i (map f ks) = select_kids c i ks"
  by (induction ks arbitrary: i) simp_all

lemma select_all_icon: "select_all c icon = (if c = ''summary-icon'' then [[]] else [])"
  by (simp add: icon_def)

lemma select_all_bar: "select_all c (bar_of r) = (if c = ''summary-progress'' then [[]] else [])"
  by (simp add: bar_of_def progressBar_def)

lemma select_all_enhance:
  assumes "c \<noteq> ''summary-icon''" and "c \<noteq> ''summary-progress''"
  shows "select_all c (enhance r b) = select_all c b"
proof (induction b)
  case (Element cs a st ks)
  have "select_kids c 0 (map (enhance r) ks) = select_kids c 0 ks"
    by (rule select_kids_map_cong) (rule Element.IH)
  then show ?case
    using assms
    by (simp add: select_all_unfold [of c "enhance r (Element cs a st ks)"] childNodes_enhance
        select_kids_append select_all_icon select_all_bar del: enhance.simps)
qed

lemma select_kids_empty_iff:
  "(select_kids c i ks = []) = (\<forall>k \<in> set ks. select_all c k = [])"
  by (induction ks arbitrary: i) auto

lemma select_all_enhance_mono:
  "select_all c b \<noteq> [] \<Longrightarrow> select_all c (enhance r b) \<noteq> []"
proof (induction b)
  case (Element cs a st ks)
  show ?case
  proof (cases "c \<in> set cs")
    case True
    then show ?thesis
      by (simp add: select_all_unfold [of c "enhance r (Element cs a st ks)"] del: enhance.simps)
  next
    case False
    with Element.prems obtain k where k: "k \<in> set ks" "select_all c k \<noteq> []"
      by (auto simp: select_kids_empty_iff)
    then have "select_all c (enhance r k) \<noteq> []" by (rule Element.IH)
    with k(1) have "select_kids c 0 (map (enhance r) ks) \<noteq> []"
      by (auto simp: select_kids_empty_iff)
    then show ?thesis
      by (simp add: select_all_unfold [of c "enhance r (Element cs a st ks)"] childNodes_enhance
          select_kids_append del: enhance.simps)
  qed
qed

lemma marked_enhance:
  assumes "selectors_summaryBox \<in> set (classList e)"
  shows "select_kids ''summary-icon'' 0 (childNodes (enhance r e)) \<noteq> []"
proof (cases "select_kids ''summary-icon'' 0 (childNodes e) = []")
  case True
  then show ?thesis using assms
    by (simp add: childNodes_enhance select_kids_append select_all_icon)
next
  case False
  then obtain k where "k \<in> set (childNodes e)" "select_all ''summary-icon'' k \<noteq> []"
    by (auto simp: select_kids_empty_iff)
  then have "select_kids ''summary-icon'' 0 (map (enhance r) (childNodes e)) \<noteq> []"
    by (auto simp: select_kids_empty_iff dest: select_all_enhance_mono)
  then show ?thesis by (simp add: childNodes_enhance select_kids_append)
qed

lemma decorateSummaryBox_marked:
  "element_at n s = Some e \<Longrightarrow> select_kids ''summary-icon'' 0 (childNodes e) \<noteq> [] \<Longrightarrow>
   decorateSummaryBox n s = s"
  by (simp add: decorateSummaryBox_def element_querySelector_def split: list.splits)

lemma fold_fixed: "(\<And>n. n \<in> set ps \<Longrightarrow> f n s = s) \<Longrightarrow> fold f ps s = s"
  by (induction ps) simp_all

lemma summaryBox_not_decoration:
  "selectors_summaryBox \<noteq> ''summary-icon''" "selectors_summaryBox \<noteq> ''summary-progress''"
  by (simp_all add: selectors_summaryBox_def)

lemma candidates_enhanceNewElements:
  "document_querySelectorAll selectors_summaryBox (enhanceNewElements s) =
   document_querySelectorAll selectors_summaryBox s"
  by (cases "body s")
    (simp_all add: document_querySelectorAll_def body_enhanceNewElements select_all_enhance
      summaryBox_not_decoration)

lemma element_at_enhanceNewElements:
  "element_at n s = Some e \<Longrightarrow>
   element_at n (enhanceNewElements s) = Some (enhance (reducedMotion s) e)"
  by (cases "body s") (simp_all add: element_at_def body_enhanceNewElements node_at_enhance)

lemma candidate_element:
  assumes "n \<in> set (document_querySelectorAll selectors_summaryBox s)"
  shows "\<exists>e. element_at n s = Some e \<and> selectors_summaryBox \<in> set (classList e)"
proof (cases "body s")
  case None
  with assms show ?thesis by (simp add: document_querySelectorAll_def)
next
  case (Some b)
  with assms have "n \<in> set (select_all selectors_summaryBox b)"
    by (simp add: document_querySelectorAll_def)
  with select_valid(1) [of n selectors_summaryBox b] Some show ?thesis
    by (simp add: element_at_def)
qed

lemma enhanceNewElements_again:
  "enhanceNewElements (enhanceNewElements s) = enhanceNewElements s"
proof -
  let ?s' = "enhanceNewElements s"
  have "decorateSummaryBox n ?s' = ?s'"
    if "n \<in> set (document_querySelectorAll selectors_summaryBox ?s')" for n
  proof -
    from that have "n \<in> set (document_querySelectorAll selectors_summaryBox s)"
      by (simp add: candidates_enhanceNewElements)
    then obtain e where e: "element_at n s = Some e" "selectors_summaryBox \<in> set (classList e)"
      using candidate_element by blast
    show ?thesis
      by (rule decorateSummaryBox_marked [OF element_at_enhanceNewElements [OF e(1)]])
        (rule marked_enhance [OF e(2)])
  qed
  then show ?thesis
    unfolding enhanceNewElements_def [of ?s'] by (rule fold_fixed)
qed

lemma enhanceNewElements_funpow:
  "0 < k \<Longrightarrow> (enhanceNewElements ^^ k) s = enhanceNewElements s"
proof (induction k)
  case 0
  then show ?case by simp
next
  case (Suc k)
  show ?case
  proof (cases k)
    case 0
    then show ?thesis by simp
  next
    case (Suc j)
    with Suc.IH have "(enhanceNewElements ^^ k) s = enhanceNewElements s" by simp
    then show ?thesis by (simp add: enhanceNewElements_again)
  qed
qed

lemma select_all_empty_class: "select_all c k = [] \<Longrightarrow> c \<notin> set (classList k)"
  by (cases k) (simp split: if_splits)

lemma no_child_with:
  "select_kids c 0 ks = [] \<Longrightarrow> filter (\<lambda>k. c \<in> set (classList k)) ks = []"
  by (auto simp: select_kids_empty_iff filter_empty_conv dest: select_all_empty_class)

lemma enhance_no_candidate:
  "select_all selectors_summaryBox b = [] \<Longrightarrow> enhance r b = b"
proof (induction b)
  case (Element cs a st ks)
  then have "map (enhance r) ks = ks"
    by (auto simp: select_kids_empty_iff map_idI split: if_splits)
  then show ?case using Element.prems by (simp split: if_splits)
qed

lemma fresh_candidate_decorated:
  assumes cand: "selectors_summaryBox \<in> set (classList e)"
    and icon: "select_kids ''summary-icon'' 0 (childNodes e) = []"
    and bar: "select_kids ''summary-progress'' 0 (childNodes e) = []"
  shows "children_with ''summary-icon'' (enhance r e) = 1"
    and "children_with ''summary-progress'' (enhance r e) = 1"
    and "select_kids selectors_summaryBox 0 (childNodes e) = [] \<Longrightarrow>
         descendants_with ''summary-icon'' (enhance r e) = 1
         \<and> descendants_with ''summary-progress'' (enhance r e) = 1"
proof -
  have kids: "childNodes (enhance r e) = map (enhance r) (childNodes e) @ [icon, bar_of r]"
    using cand icon by (simp add: childNodes_enhance)
  have f: "filter (\<lambda>k. c \<in> set (classList k)) (map (enhance r) (childNodes e)) =
      map (enhance r) (filter (\<lambda>k. c \<in> set (classList k)) (childNodes e))" for c
    by (simp add: filter_map comp_def)
  show "children_with ''summary-icon'' (enhance r e) = 1"
    by (simp add: children_with_def kids f no_child_with [OF icon] icon_def bar_of_def
        progressBar_def)
  show "children_with ''summary-progress'' (enhance r e) = 1"
    by (simp add: children_with_def kids f no_child_with [OF bar] icon_def bar_of_def
        progressBar_def)
  assume "select_kids selectors_summaryBox 0 (childNodes e) = []"
  then have "map (enhance r) (childNodes e) = childNodes e"
    by (auto simp: select_kids_empty_iff enhance_no_candidate map_idI)
  then show "descendants_with ''summary-icon'' (enhance r e) = 1
      \<and> descendants_with ''summary-progress'' (enhance r e) = 1"
    by (simp add: descendants_with_def kids select_kids_append icon bar select_all_icon
        select_all_bar)
qed

text \<open>
  Claim C1, as the code has it. Any number \<open>k > 0\<close> of enhancement passes leaves the page
  as one pass does, and a pass over an enhanced page changes nothing. A candidate that
  holds no element of class \<open>summary-icon\<close> or \<open>summary-progress\<close> before the passes has
  exactly one child of each class after them; when no other candidate lies inside it,
  these are also the only descendants of each class.
\<close>

theorem enhanceNewElements_decorates_once:
  assumes "0 < k"
  shows "(enhanceNewElements ^^ k) s = enhanceNewElements s
     \<and> enhanceNewElements (enhanceNewElements s) = enhanceNewElements s
     \<and> (\<forall>n e. n \<in> set (document_querySelectorAll selectors_summaryBox s)
            \<and> element_at n s = Some e
            \<and> descendants_with ''summary-icon'' e = 0
            \<and> descendants_with ''summary-progress'' e = 0 \<longrightarrow>
          (\<exists>e'. element_at n ((enhanceNewElements ^^ k) s) = Some e'
             \<and> children_with ''summary-icon'' e' = 1
             \<and> children_with ''summary-progress'' e' = 1
             \<and> (descendants_with selectors_summaryBox e = 0 \<longrightarrow>
                  descendants_with ''summary-icon'' e' = 1
                  \<and> descendants_with ''summary-progress'' e' = 1)))"
proof (intro conjI allI impI)
  show pow: "(enhanceNewElements ^^ k) s = enhanceNewElements s"
    by (rule enhanceNewElements_funpow [OF assms])
  show "enhanceNewElements (enhanceNewElements s) = enhanceNewElements s"
    by (rule enhanceNewElements_again)
  fix n e
  assume h: "n \<in> set (document_querySelectorAll selectors_summaryBox s)
      \<and> element_at n s = Some e
      \<and> descendants_with ''summary-icon'' e = 0
      \<and> descendants_with ''summary-progress'' e = 0"
  then have e: "element_at n s = Some e"
    and icon: "select_kids ''summary-icon'' 0 (childNodes e) = []"
    and bar: "select_kids ''summary-progress'' 0 (childNodes e) = []"
    by (simp_all add: descendants_with_def)
  from h candidate_element [of n s] have cand: "selectors_summaryBox \<in> set (classList e)"
    by auto
  let ?e' = "enhance (reducedMotion s) e"
  note d = fresh_candidate_decorated [OF cand icon bar, of "reducedMotion s"]
  have at: "element_at n ((enhanceNewElements ^^ k) s) = Some ?e'"
    unfolding pow by (rule element_at_enhanceNewElements [OF e])
  have deep: "descendants_with selectors_summaryBox e = 0 \<longrightarrow>
      descendants_with ''summary-icon'' ?e' = 1 \<and> descendants_with ''summary-progress'' ?e' = 1"
  proof
    assume "descendants_with selectors_summaryBox e = 0"
    then have "select_kids selectors_summaryBox 0 (childNodes e) = []"
      by (simp add: descendants_with_def)
    then show "descendants_with ''summary-icon'' ?e' = 1
        \<and> descendants_with ''summary-progress'' ?e' = 1"
      by (rule d(3))
  qed
  show "\<exists>e'. element_at n ((enhanceNewElements ^^ k) s) = Some e'
      \<and> children_with ''summary-icon'' e' = 1
      \<and> children_with ''summary-progress'' e' = 1
      \<and> (descendants_with selectors_summaryBox e = 0 \<longrightarrow>
           descendants_with ''summary-icon'' e' = 1
           \<and> descendants_with ''summary-progress'' e' = 1)"
  proof (intro exI conjI)
    show "element_at n ((enhanceNewElements ^^ k) s) = Some ?e'" by (rule at)
    show "children_with ''summary-icon'' ?e' = 1" by (rule d(1))
    show "children_with ''summary-progress'' ?e' = 1" by (rule d(2))
    show "descendants_with selectors_summaryBox e = 0 \<longrightarrow>
        descendants_with ''summary-icon'' ?e' = 1 \<and> descendants_with ''summary-progress'' ?e' = 1"
      by (rule deep)
  qed
qed

text \<open>The theorem for two passes over two undecorated boxes, at the second box.\<close>

theorem enhanceNewElements_decorates_once_witness:
  "(0::nat) < 2
   \<and> [1] \<in> set (document_querySelectorAll selectors_summaryBox (new_page (Some two_boxes) Map.empty))
   \<and> element_at [1] (new_page (Some two_boxes) Map.empty) = Some (Element [''summary-box''] [] [] [])
   \<and> descendants_with ''summary-icon'' (Element [''summary-box''] [] [] []) = 0
   \<and> descendants_with ''summary-progress'' (Element [''summary-box''] [] [] []) = 0
   \<and> descendants_with selectors_summaryBox (Element [''summary-box''] [] [] []) = 0
   \<and> (\<exists>e'. element_at [1] ((enhanceNewElements ^^ 2) (new_page (Some two_boxes) Map.empty)) = Some e'
         \<and> children_with ''summary-icon'' e' = 1 \<and> children_with ''summary-progress'' e' = 1
         \<and> descendants_with ''summary-icon'' e' = 1 \<and> descendants_with ''summary-progress'' e' = 1)"
proof -
  let ?s = "new_page (Some two_boxes) Map.empty"
  let ?e = "Element [''summary-box''] [] [] []"
  have h0: "(0::nat) < 2" by simp
  have h1: "[1] \<in> set (document_querySelectorAll selectors_summaryBox ?s)"
    by (simp add: document_querySelectorAll_def new_page_def two_boxes_def selectors_summaryBox_def)
  have h2: "element_at [1] ?s = Some ?e"
    by (simp add: element_at_def new_page_def two_boxes_def)
  have h3: "descendants_with ''summary-icon'' ?e = 0" "descendants_with ''summary-progress'' ?e = 0"
    "descendants_with selectors_summaryBox ?e = 0"
    by (simp_all add: descendants_with_def)
  from enhanceNewElements_decorates_once [OF h0, of ?s]
  have "\<forall>n e. n \<in> set (document_querySelectorAll selectors_summaryBox ?s)
            \<and> element_at n ?s = Some e
            \<and> descendants_with ''summary-icon'' e = 0
            \<and> descendants_with ''summary-progress'' e = 0 \<longrightarrow>
          (\<exists>e'. element_at n ((enhanceNewElements ^^ 2) ?s) = Some e'
             \<and> children_with ''summary-icon'' e' = 1
             \<and> children_with ''summary-progress'' e' = 1
             \<and> (descendants_with selectors_summaryBox e = 0 \<longrightarrow>
                  descendants_with ''summary-icon'' e' = 1
                  \<and> descendants_with ''summary-progress'' e' = 1))"
    by blast
  from this [rule_format, of "[1]" ?e] h1 h2 h3
  obtain e' where "element_at [1] ((enhanceNewElements ^^ 2) ?s) = Some e'"
    "children_with ''summary-icon'' e' = 1" "children_with ''summary-progress'' e' = 1"
    "descendants_with ''summary-icon'' e' = 1" "descendants_with ''summary-progress'' e' = 1"
    by metis
  with h0 h1 h2 h3 show ?thesis by (simp only: simp_thms) (rule exI [of _ e'], simp)
qed

text \<open>
  A candidate that already holds an element of class \<open>summary-icon\<close> is never given a
  progress bar, and the outer of two nested candidates holds two icons after one pass.
\<close>

theorem enhanceNewElements_premarked:
  "[] \<in> set (document_querySelectorAll selectors_summaryBox (new_page (Some marked_box) Map.empty))
   \<and> element_at [] (enhanceNewElements (new_page (Some marked_box) Map.empty)) = Some marked_box
   \<and> children_with ''summary-progress'' marked_box = 0
   \<and> descendants_with ''summary-progress'' marked_box = 0
   \<and> [] \<in> set (document_querySelectorAll selectors_summaryBox (new_page (Some nested_boxes) Map.empty))
   \<and> descendants_with ''summary-icon'' nested_boxes = 0
   \<and> map_option (descendants_with ''summary-icon'')
        (element_at [] (enhanceNewElements (new_page (Some nested_boxes) Map.empty))) = Some 2"
  by (simp add: element_at_def body_enhanceNewElements document_querySelectorAll_def new_page_def
      marked_box_def nested_boxes_def selectors_summaryBox_def children_with_def
      descendants_with_def decorate_def bar_of_def icon_def progressBar_def)

section \<open>Initialization\<close>

lemma decorateSummaryBox_frame:
  "decorateSummaryBox n s =
     s\<lparr>body := body (decorateSummaryBox n s), pending := pending (decorateSummaryBox n s),
       next_id := next_id (decorateSummaryBox n s)\<rparr>"
  by (simp add: decorateSummaryBox_def Let_def appendChild_def setStyle_def on_element_def
      setTimeout_def split: option.splits)

lemma fold_decorateSummaryBox_frame:
  "fold decorateSummaryBox ps s =
     s\<lparr>body := body (fold decorateSummaryBox ps s),
       pending := pending (fold decorateSummaryBox ps s),
       next_id := next_id (fold decorateSummaryBox ps s)\<rparr>"
proof (induction ps arbitrary: s)
  case Nil
  show ?case by simp
next
  case (Cons p ps)
  let ?s1 = "decorateSummaryBox p s"
  let ?s2 = "fold decorateSummaryBox ps ?s1"
  have "?s2 = ?s1\<lparr>body := body ?s2, pending := pending ?s2, next_id := next_id ?s2\<rparr>"
    by (rule Cons.IH)
  also have "\<dots> = (s\<lparr>body := body ?s1, pending := pending ?s1, next_id := next_id ?s1\<rparr>)
      \<lparr>body := body ?s2, pending := pending ?s2, next_id := next_id ?s2\<rparr>"
    by (subst decorateSummaryBox_frame) simp
  finally show ?case by simp
qed

lemma enhanceNewElements_frame:
  "enhanceNewElements s =
     s\<lparr>body := map_option (enhance (reducedMotion s)) (body s),
       pending := pending (enhanceNewElements s),
       next_id := next_id (enhanceNewElements s)\<rparr>"
proof -
  have "enhanceNewElements s =
     s\<lparr>body := body (enhanceNewElements s), pending := pending (enhanceNewElements s),
       next_id := next_id (enhanceNewElements s)\<rparr>"
    unfolding enhanceNewElements_def by (rule fold_decorateSummaryBox_frame)
  then show ?thesis by (simp only: body_enhanceNewElements)
qed

lemma storage_enhanceNewElements [simp]: "storage (enhanceNewElements s) = storage s"
  by (subst enhanceNewElements_frame) simp

lemma console_enhanceNewElements [simp]: "console (enhanceNewElements s) = console s"
  by (subst enhanceNewElements_frame) simp

lemma mutationObserver_enhanceNewElements [simp]:
  "mutationObserver (enhanceNewElements s) = mutationObserver s"
  by (subst enhanceNewElements_frame) simp

lemma closures_enhanceNewElements [simp]: "closures (enhanceNewElements s) = closures s"
  by (subst enhanceNewElements_frame) simp

lemma initUI_total: "\<exists>s'. initUI s = Inr s'"
  by (cases "initUI_try s") (auto simp: initUI_def)

lemma setupMutationObserver_cases:
  "(body s = None \<longrightarrow> (\<exists>e s'. setupMutationObserver s = Inl (e, s')
        \<and> body s' = body s \<and> storage s' = storage s \<and> console s' = console s))
   \<and> (body s \<noteq> None \<longrightarrow> (\<exists>s'. setupMutationObserver s = Inr s'
        \<and> body s' = body s \<and> storage s' = storage s \<and> console s' = console s))"
  by (auto simp: setupMutationObserver_def disconnect_def debounce_def Let_def
      document_querySelector_def document_querySelectorAll_def
      split: option.splits list.splits)

lemma initUI_try_fault:
  assumes "body (prepared s) = None"
  shows "\<exists>e s'. initUI_try s = Inl (e, s') \<and> body s' = body (prepared s)
      \<and> storage s' = storage (prepared s) \<and> console s' = console (prepared s)"
  using setupMutationObserver_cases [of "prepared s"] assms
  by (auto simp: initUI_try_def prepared_def Let_def)

lemma initUI_try_done:
  assumes "body (prepared s) \<noteq> None"
  shows "\<exists>s'. initUI_try s = Inr s' \<and> body s' = body (prepared s)
      \<and> storage s' = storage (prepared s)
      \<and> console s' = console (prepared s) @ [(LOG, ''AI Research Agent Dashboard initialized'')]"
proof -
  from setupMutationObserver_cases [of "prepared s"] assms obtain s4 where
    s4: "setupMutationObserver (prepared s) = Inr s4" "body s4 = body (prepared s)"
      "storage s4 = storage (prepared s)" "console s4 = console (prepared s)"
    by auto
  then show ?thesis
    by (simp add: initUI_try_def prepared_def [symmetric] Let_def attachEventHandlers_def debounce_def
        executedFunction_def setTimeout_def clearTimeout_def console_write_def
        split: prod.splits option.splits)
qed

lemma setTheme_body_None: "(body (setTheme t s) = None) = (body s = None)"
  by (simp add: setTheme_def dispatchEvent_eq storage_setItem_def setAttribute_def on_element_def
      console_write_def split: option.splits)

lemma applySavedSidebarState_eq:
  "applySavedSidebarState s = s\<lparr>body := body (applySavedSidebarState s)\<rparr>"
  by (simp add: applySavedSidebarState_def setAttribute_def classList_add_def on_element_def
      split: option.splits)

lemma applySavedSidebarState_body_None:
  "(body (applySavedSidebarState s) = None) = (body s = None)"
  by (simp add: applySavedSidebarState_def setAttribute_def classList_add_def on_element_def
      split: option.splits)

lemma storage_applySavedSidebarState [simp]:
  "storage (applySavedSidebarState s) = storage s"
  by (subst applySavedSidebarState_eq) simp

lemma prepared_body_None: "(body (prepared s) = None) = (body s = None)"
  by (simp add: prepared_def body_enhanceNewElements applySavedSidebarState_body_None
      setTheme_body_None)

lemma setTheme_storage:
  "t \<in> set themes \<Longrightarrow>
   storage (setTheme t s) =
     (case document_querySelector selectors_app s of
        None \<Rightarrow> storage s
      | Some a \<Rightarrow> (storage s)(storageKeys_theme \<mapsto> t))"
  by (simp add: setTheme_def dispatchEvent_eq storage_setItem_def setAttribute_def on_element_def
      split: option.splits)

lemma getAttribute_setAttribute_other:
  assumes "k \<noteq> k'"
  shows "getAttribute q k (setAttribute p k' v s) = getAttribute q k s"
proof (cases "body s")
  case None
  then show ?thesis by (simp add: getAttribute_def element_at_def setAttribute_def on_element_def)
next
  case (Some b)
  have "map_option (\<lambda>e. map_of (attributes e) k) (node_at q (update_at p (el_setAttribute k' v) b))
      = map_option (\<lambda>e. map_of (attributes e) k) (node_at q b)"
    by (rule shell_update_at) (simp_all add: assms)
  then show ?thesis using Some
    by (auto simp: getAttribute_def element_at_def setAttribute_def on_element_def
        split: option.splits)
qed

lemma getAttribute_applySavedSidebarState:
  "k \<noteq> ''data-sidebar-collapsed'' \<Longrightarrow>
   getAttribute q k (applySavedSidebarState s) = getAttribute q k s"
  by (simp add: applySavedSidebarState_def getAttribute_setAttribute_other classList_add_def
      getAttribute_on_element split: option.splits)

lemma attributes_enhance [simp]: "attributes (enhance r e) = attributes e"
  by (cases e) (simp add: decorate_def)

lemma getAttribute_enhanceNewElements:
  "element_at q s \<noteq> None \<Longrightarrow> getAttribute q k (enhanceNewElements s) = getAttribute q k s"
proof -
  assume "element_at q s \<noteq> None"
  then obtain e where e: "element_at q s = Some e" by auto
  show ?thesis
    by (simp add: getAttribute_def e element_at_enhanceNewElements [OF e])
qed

lemma element_at_applySavedSidebarState:
  "(element_at q (applySavedSidebarState s) = None) = (element_at q s = None)"
  by (simp add: applySavedSidebarState_def setAttribute_def classList_add_def defined_on_element
      split: option.splits)

text \<open>
  Claim C9. \<open>initUI\<close> always returns normally: a fault thrown in its \<open>try\<close> block is
  logged to the console as an error, with the page as the fault left it, and a block
  that completes is returned as it is. The block does throw, exactly when the document has
  no body for the observer to observe.
\<close>

theorem initUI_failure_boundary:
  "(\<exists>s'. initUI s = Inr s')
   \<and> (\<forall>error s1. initUI_try s = Inl (error, s1) \<longrightarrow>
        initUI s = Inr (console_write ERROR (''Error initializing UI: '' @ message error) s1))
   \<and> (\<forall>s1. initUI_try s = Inr s1 \<longrightarrow> initUI s = Inr s1)
   \<and> ((\<exists>error s1. initUI_try s = Inl (error, s1)) = (body s = None))"
proof (intro conjI allI impI)
  show "\<exists>s'. initUI s = Inr s'" by (rule initUI_total)
  show "initUI s = Inr (console_write ERROR (''Error initializing UI: '' @ message error) s1)"
    if "initUI_try s = Inl (error, s1)" for error s1
    using that by (simp add: initUI_def)
  show "initUI s = Inr s1" if "initUI_try s = Inr s1" for s1
    using that by (simp add: initUI_def)
  show "(\<exists>error s1. initUI_try s = Inl (error, s1)) = (body s = None)"
  proof (cases "body s = None")
    case True
    then have "body (prepared s) = None" by (simp add: prepared_body_None)
    from initUI_try_fault [OF this] True show ?thesis by auto
  next
    case False
    then have "body (prepared s) \<noteq> None" by (simp add: prepared_body_None)
    from initUI_try_done [OF this] False show ?thesis by auto
  qed
qed

text \<open>
  The theorem at a page without a body: the block throws at \<open>observe\<close>, and \<open>initUI\<close>
  returns with that error logged.
\<close>

theorem initUI_failure_boundary_witness:
  "initUI_try (new_page None Map.empty) =
     Inl (TypeError ''observe: parameter 1 is not of type Node'',
          (new_page None Map.empty)
            \<lparr>closures := [\<lparr>func = EnhanceNewElements, wait = 250, timeout = None\<rparr>],
             mutationObserver := Some \<lparr>debouncedEnhance = 0, target = None\<rparr>\<rparr>)
   \<and> (\<exists>s'. initUI (new_page None Map.empty) = Inr s'
         \<and> console s' =
            [(ERROR, ''Error initializing UI: TypeError: observe: parameter 1 is not of type Node'')])"
proof -
  let ?s = "new_page None Map.empty"
  let ?s1 = "?s\<lparr>closures := [\<lparr>func = EnhanceNewElements, wait = 250, timeout = None\<rparr>],
             mutationObserver := Some \<lparr>debouncedEnhance = 0, target = None\<rparr>\<rparr>"
  have t: "initUI_try ?s = Inl (TypeError ''observe: parameter 1 is not of type Node'', ?s1)"
    by (simp add: initUI_try_def setupMutationObserver_def disconnect_def debounce_def
        enhanceNewElements_def applySavedSidebarState_def setTheme_def getTheme_def
        storage_getItem_def document_querySelector_def document_querySelectorAll_def
        themes_def defaultTheme_def new_page_def)
  from initUI_failure_boundary [of ?s] t
  have "initUI ?s = Inr (console_write ERROR
      (''Error initializing UI: '' @ message (TypeError ''observe: parameter 1 is not of type Node'')) ?s1)"
    by blast
  then have "\<exists>s'. initUI ?s = Inr s' \<and> console s' =
      [(ERROR, ''Error initializing UI: TypeError: observe: parameter 1 is not of type Node'')]"
    by (simp add: console_write_def new_page_def)
  with t show ?thesis by blast
qed

lemma getAttribute_cong_body: "body s = body s' \<Longrightarrow> getAttribute a k s = getAttribute a k s'"
  by (simp add: getAttribute_def element_at_def)

lemma getTheme_cong_storage: "storage s = storage s' \<Longrightarrow> getTheme s = getTheme s'"
  by (simp add: getTheme_def storage_getItem_def)

text \<open>
  Claim C7. After \<open>setTheme\<close> with \<open>Dark\<close> on a page with the app root, a fresh page
  over the same storage reads \<open>Dark\<close> as its theme, before and after \<open>initUI\<close>, and
  \<open>initUI\<close> writes \<open>Dark\<close> on the app root of the fresh page when it has one.
\<close>

theorem theme_survives_reload:
  assumes app: "document_querySelector selectors_app s = Some appElement"
    and reload: "storage fresh = storage (setTheme ''Dark'' s)"
  shows "getTheme fresh = ''Dark''
     \<and> (\<exists>s'. initUI fresh = Inr s' \<and> getTheme s' = ''Dark''
          \<and> (\<forall>a. document_querySelector selectors_app fresh = Some a \<longrightarrow>
                getAttribute a ''data-theme'' s' = Some ''Dark''))"
proof -
  have dark: "''Dark'' \<in> set themes" by (simp add: themes_def)
  have st: "storage fresh storageKeys_theme = Some ''Dark''"
    unfolding reload by (rule setTheme_effect(2) [OF app dark])
  then have g: "getTheme fresh = ''Dark''"
    by (simp add: getTheme_def storage_getItem_def)
  let ?p = "prepared fresh"
  have "storage (setTheme ''Dark'' fresh) storageKeys_theme = Some ''Dark''"
    using st by (simp add: setTheme_storage [OF dark] split: option.splits)
  then have stp: "storage ?p storageKeys_theme = Some ''Dark''"
    by (simp add: prepared_def g)
  have gp: "getTheme x = ''Dark''" if "storage x = storage ?p" for x
    using that stp by (simp add: getTheme_def storage_getItem_def)
  have attr: "getAttribute a ''data-theme'' ?p = Some ''Dark''"
    if a: "document_querySelector selectors_app fresh = Some a" for a
  proof -
    note fx = setTheme_effect [OF a dark]
    from document_querySelector_valid [OF fx(4)]
    have "element_at a (setTheme ''Dark'' fresh) \<noteq> None" by auto
    then have "element_at a (applySavedSidebarState (setTheme ''Dark'' fresh)) \<noteq> None"
      by (simp add: element_at_applySavedSidebarState)
    then have "getAttribute a ''data-theme'' ?p =
        getAttribute a ''data-theme'' (applySavedSidebarState (setTheme ''Dark'' fresh))"
      unfolding prepared_def g by (rule getAttribute_enhanceNewElements)
    also have "\<dots> = getAttribute a ''data-theme'' (setTheme ''Dark'' fresh)"
      by (rule getAttribute_applySavedSidebarState) simp
    finally show ?thesis using fx(1) by simp
  qed
  have "\<exists>s'. initUI fresh = Inr s' \<and> getTheme s' = ''Dark''
      \<and> (\<forall>a. document_querySelector selectors_app fresh = Some a \<longrightarrow>
            getAttribute a ''data-theme'' s' = Some ''Dark'')"
  proof (cases "body ?p = None")
    case True
    from initUI_try_fault [OF True] obtain e s1 where
      s1: "initUI_try fresh = Inl (e, s1)" "storage s1 = storage ?p"
      by blast
    let ?s' = "console_write ERROR (''Error initializing UI: '' @ message e) s1"
    have i: "initUI fresh = Inr ?s'" using s1(1) by (simp add: initUI_def)
    have "storage ?s' = storage ?p" using s1(2) by (simp add: console_write_def)
    then have "getTheme ?s' = ''Dark''" by (rule gp)
    moreover from True have "body fresh = None" by (simp add: prepared_body_None)
    then have "document_querySelector selectors_app fresh = None"
      by (simp add: document_querySelector_def document_querySelectorAll_def)
    ultimately show ?thesis using i by simp
  next
    case False
    from initUI_try_done [OF False] obtain s1 where
      s1: "initUI_try fresh = Inr s1" "body s1 = body ?p" "storage s1 = storage ?p"
      by blast
    have i: "initUI fresh = Inr s1" using s1(1) by (simp add: initUI_def)
    have "getTheme s1 = ''Dark''" using s1(3) by (rule gp)
    moreover have "getAttribute a ''data-theme'' s1 = Some ''Dark''"
      if "document_querySelector selectors_app fresh = Some a" for a
      using attr [OF that] getAttribute_cong_body [OF s1(2)] by simp
    ultimately show ?thesis using i by simp
  qed
  with g show ?thesis by simp
qed

text \<open>The theorem at a page whose body is the app root, reloaded with its storage.\<close>

theorem theme_survives_reload_witness:
  "document_querySelector selectors_app (new_page (Some app_only) Map.empty) = Some []
   \<and> getTheme (new_page (Some app_only) Map.empty) = ''Light''
   \<and> getTheme (new_page (Some app_only)
        (storage (setTheme ''Dark'' (new_page (Some app_only) Map.empty)))) = ''Dark''
   \<and> (\<exists>s'. initUI (new_page (Some app_only)
          (storage (setTheme ''Dark'' (new_page (Some app_only) Map.empty)))) = Inr s'
        \<and> getTheme s' = ''Dark'' \<and> getAttribute [] ''data-theme'' s' = Some ''Dark'')"
proof -
  let ?s = "new_page (Some app_only) Map.empty"
  let ?fresh = "new_page (Some app_only) (storage (setTheme ''Dark'' ?s))"
  have h1: "document_querySelector selectors_app ?s = Some []"
    by (simp add: document_querySelector_def document_querySelectorAll_def new_page_def
        app_only_def selectors_app_def)
  have h2: "storage ?fresh = storage (setTheme ''Dark'' ?s)" by (simp add: new_page_def)
  have h3: "document_querySelector selectors_app ?fresh = Some []"
    by (simp add: document_querySelector_def document_querySelectorAll_def new_page_def
        app_only_def selectors_app_def)
  have h4: "getTheme ?s = ''Light''"
    by (simp add: getTheme_def storage_getItem_def new_page_def defaultTheme_def)
  from theme_survives_reload [OF h1 h2] h3 h1 h4 show ?thesis by auto
qed

section \<open>Debounced enhancement\<close>









lemma invoked_enhanceNewElements [simp]: "invoked (enhanceNewElements s) = invoked s"
  by (subst enhanceNewElements_frame) simp

lemma clock_enhanceNewElements [simp]: "clock (enhanceNewElements s) = clock s"
  by (subst enhanceNewElements_frame) simp



lemma find_none_pending: "\<forall>u \<in> set xs. timer_id u \<noteq> h \<Longrightarrow> find (\<lambda>u. timer_id u = h) xs = None"
  by (induction xs) auto



section \<open>The bootstrap poll\<close>

lemma quiet_step_refl [simp]: "quiet_step s s"
  by (simp add: quiet_step_def)






















































end
